theory Spec2Isabelle
  imports Complex_Main "HOL-Library.Sublist" "HOL-Library.Product_Lexorder" "HOL-Library.Multiset"
begin

section \<open>Python strings\<close>

text \<open>
  A Python \<open>str\<close> is modelled as a HOL \<open>string\<close>, one \<open>char\<close> per code point.
  The model covers ASCII text: \<open>str_lower\<close> changes the letters A to Z only, and the
  whitespace of \<open>strip\<close>, \<open>split\<close> and the regular expression class \<open>\s\<close> is the
  ASCII whitespace of Python 3 (tab, LF, VT, FF, CR, the separators 0x1C to 0x1F and the
  space). The glyphs of the answer templates, which are not ASCII, are kept as named
  constants holding their UTF-8 bytes.
\<close>

definition isspace :: "char \<Rightarrow> bool" where
  "isspace c = (c \<in> set [CHR 0x09, CHR 0x0A, CHR 0x0B, CHR 0x0C, CHR 0x0D,
                         CHR 0x1C, CHR 0x1D, CHR 0x1E, CHR 0x1F, CHR 0x20])"

definition upper_letters :: string where
  "upper_letters = ''ABCDEFGHIJKLMNOPQRSTUVWXYZ''"

definition lower_letters :: string where
  "lower_letters = ''abcdefghijklmnopqrstuvwxyz''"

definition char_lower :: "char \<Rightarrow> char" where
  "char_lower c = (case map_of (zip upper_letters lower_letters) c of Some d \<Rightarrow> d | None \<Rightarrow> c)"

definition char_upper :: "char \<Rightarrow> char" where
  "char_upper c = (case map_of (zip lower_letters upper_letters) c of Some d \<Rightarrow> d | None \<Rightarrow> c)"

definition isalpha :: "char \<Rightarrow> bool" where
  "isalpha c = (c \<in> set upper_letters \<or> c \<in> set lower_letters)"

text \<open>\<open>s.lower()\<close>\<close>

definition str_lower :: "string \<Rightarrow> string" where
  "str_lower s = map char_lower s"

text \<open>\<open>sub in s\<close>: \<open>sub\<close> occurs in \<open>s\<close> as a contiguous substring.\<close>

fun str_in :: "string \<Rightarrow> string \<Rightarrow> bool" where
  "str_in sub [] = (sub = [])"
| "str_in sub (c # cs) = (prefix sub (c # cs) \<or> str_in sub cs)"

text \<open>
  \<open>s.replace(old, new)\<close>: every occurrence of \<open>old\<close>, scanning from the left without
  overlaps. With an empty \<open>old\<close> Python puts \<open>new\<close> before every character and at the end.
\<close>

function str_replace :: "string \<Rightarrow> string \<Rightarrow> string \<Rightarrow> string" where
  "str_replace old new [] = (if old = [] then new else [])"
| "str_replace old new (c # cs) =
     (if old = [] then new @ c # str_replace old new cs
      else if prefix old (c # cs) then new @ str_replace old new (drop (length old) (c # cs))
      else c # str_replace old new cs)"
  by pat_completeness auto
termination
  by (relation "measure (\<lambda>(old, new, s). length s)") auto

text \<open>\<open>s.strip()\<close>\<close>

definition lstrip :: "string \<Rightarrow> string" where
  "lstrip s = dropWhile isspace s"

definition rstrip :: "string \<Rightarrow> string" where
  "rstrip s = rev (dropWhile isspace (rev s))"

definition strip :: "string \<Rightarrow> string" where
  "strip s = rstrip (lstrip s)"

text \<open>
  \<open>s.split()\<close>: the maximal runs of characters that are not whitespace. \<open>split_acc\<close>
  scans the text with the word read so far.
\<close>

fun split_acc :: "string \<Rightarrow> string \<Rightarrow> string list" where
  "split_acc cur [] = (if cur = [] then [] else [cur])"
| "split_acc cur (c # cs) =
     (if isspace c then (if cur = [] then split_acc [] cs else cur # split_acc [] cs)
      else split_acc (cur @ [c]) cs)"

definition str_split :: "string \<Rightarrow> string list" where
  "str_split s = split_acc [] s"

text \<open>\<open>sep.join(xs)\<close>\<close>

fun str_join :: "string \<Rightarrow> string list \<Rightarrow> string" where
  "str_join sep [] = []"
| "str_join sep [x] = x"
| "str_join sep (x # y # ys) = x @ sep @ str_join sep (y # ys)"

text \<open>
  \<open>s.title()\<close>: a letter that follows a letter is lower-cased, any other letter is
  upper-cased. The flag says whether the previous character was a letter.
\<close>

fun title_from :: "bool \<Rightarrow> string \<Rightarrow> string" where
  "title_from prev [] = []"
| "title_from prev (c # cs) =
     (if isalpha c then (if prev then char_lower c else char_upper c) # title_from True cs
      else c # title_from False cs)"

definition str_title :: "string \<Rightarrow> string" where
  "str_title s = title_from False s"

text \<open>\<open>int(s)\<close> on a run of decimal digits, and \<open>str(n)\<close> of an integer.\<close>

definition digits :: string where
  "digits = ''0123456789''"

definition digit_val :: "char \<Rightarrow> int" where
  "digit_val c = (case map_of (zip digits [0, 1, 2, 3, 4, 5, 6, 7, 8, 9]) c of Some d \<Rightarrow> d | None \<Rightarrow> 0)"

definition int_of_digits :: "string \<Rightarrow> int" where
  "int_of_digits ds = foldl (\<lambda>n c. 10 * n + digit_val c) 0 ds"

fun str_nat_fuel :: "nat \<Rightarrow> nat \<Rightarrow> string" where
  "str_nat_fuel 0 n = []"
| "str_nat_fuel (Suc k) n =
     (if n < 10 then [digits ! n] else str_nat_fuel k (n div 10) @ [digits ! (n mod 10)])"

definition str_nat :: "nat \<Rightarrow> string" where
  "str_nat n = str_nat_fuel (Suc n) n"

definition str_int :: "int \<Rightarrow> string" where
  "str_int i = (if i < 0 then CHR ''-'' # str_nat (nat (- i)) else str_nat (nat i))"

section \<open>Regular expressions\<close>

text \<open>
  The patterns of the source use literal characters, the classes \<open>\s\<close>, \<open>\d\<close> and
  \<open>[\d,]\<close>, the greedy quantifiers \<open>?\<close>, \<open>*\<close> and \<open>+\<close> on one character or class, and
  capture groups. A pattern is the list of its tokens. \<open>rx_here\<close> matches a pattern at
  the start of a text as Python's backtracking matcher does: a quantifier first takes as
  many characters as it can and gives them back one by one while the rest of the pattern
  fails. The result is the list of the captured groups. \<open>re_search\<close> is \<open>re.search\<close>:
  the match at the leftmost position that has one.
\<close>

datatype cls = Ch char | WS | Dig | DigComma

fun cls_ok :: "cls \<Rightarrow> char \<Rightarrow> bool" where
  "cls_ok (Ch a) c = (c = a)"
| "cls_ok WS c = isspace c"
| "cls_ok Dig c = (c \<in> set digits)"
| "cls_ok DigComma c = (c \<in> set digits \<or> c = CHR '','')"

datatype tok = One cls | Opt cls | Star cls | Plus cls | GOpen | GClose

definition grab :: "string option \<Rightarrow> string \<Rightarrow> string option" where
  "grab cur t = map_option (\<lambda>g. g @ t) cur"

text \<open>\<open>first_down f lo d\<close> tries \<open>f\<close> at \<open>lo + d\<close>, \<open>lo + d - 1\<close>, ..., \<open>lo\<close>.\<close>

fun first_down :: "(nat \<Rightarrow> 'a option) \<Rightarrow> nat \<Rightarrow> nat \<Rightarrow> 'a option" where
  "first_down f lo 0 = f lo"
| "first_down f lo (Suc d) = (case f (lo + Suc d) of Some r \<Rightarrow> Some r | None \<Rightarrow> first_down f lo d)"

primrec rx_here :: "tok list \<Rightarrow> string \<Rightarrow> string option \<Rightarrow> string list \<Rightarrow> string list option" where
  "rx_here [] s cur gs = Some gs"
| "rx_here (t # ts) s cur gs =
     (case t of
        GOpen \<Rightarrow> rx_here ts s (Some []) gs
      | GClose \<Rightarrow> (case cur of None \<Rightarrow> None | Some g \<Rightarrow> rx_here ts s None (gs @ [g]))
      | One c \<Rightarrow>
          (case s of [] \<Rightarrow> None
           | x # xs \<Rightarrow> if cls_ok c x then rx_here ts xs (grab cur [x]) gs else None)
      | Opt c \<Rightarrow>
          first_down (\<lambda>k. rx_here ts (drop k s) (grab cur (take k s)) gs) 0
            (min 1 (length (takeWhile (cls_ok c) s)))
      | Star c \<Rightarrow>
          first_down (\<lambda>k. rx_here ts (drop k s) (grab cur (take k s)) gs) 0
            (length (takeWhile (cls_ok c) s))
      | Plus c \<Rightarrow>
          (if length (takeWhile (cls_ok c) s) = 0 then None
           else first_down (\<lambda>k. rx_here ts (drop k s) (grab cur (take k s)) gs) 1
                  (length (takeWhile (cls_ok c) s) - 1)))"

fun re_search :: "tok list \<Rightarrow> string \<Rightarrow> string list option" where
  "re_search p [] = rx_here p [] None []"
| "re_search p (c # cs) =
     (case rx_here p (c # cs) None [] of Some gs \<Rightarrow> Some gs | None \<Rightarrow> re_search p cs)"

definition lit :: "string \<Rightarrow> tok list" where
  "lit s = map (\<lambda>c. One (Ch c)) s"

section \<open>Query normalisation\<close>

text \<open>
  \<open>optimize_search_query\<close>: the query is lower-cased; each filler phrase in turn is
  replaced by the empty string and the text stripped; the first keyword of the table that
  occurs in the text, and whose expansion does not, puts its expansion in front; the
  words are joined again with single spaces.
\<close>

definition filler_words :: "string list" where
  "filler_words = [''i need'', ''i want'', ''looking for'', ''find me'', ''search for'',
                   ''show me'', ''get me'']"

definition improvements :: "(string \<times> string) list" where
  "improvements =
     [(''hiking'', ''hiking outdoor gear''),
      (''travel'', ''travel accessories''),
      (''beach'', ''beach vacation''),
      (''winter'', ''winter gear''),
      (''workout'', ''fitness exercise''),
      (''office'', ''office supplies''),
      (''kitchen'', ''kitchen appliances''),
      (''phone'', ''smartphone accessories''),
      (''laptop'', ''laptop computer''),
      (''camera'', ''digital camera photography'')]"

fun remove_fillers :: "string list \<Rightarrow> string \<Rightarrow> string" where
  "remove_fillers [] q = q"
| "remove_fillers (filler # rest) q = remove_fillers rest (strip (str_replace filler [] q))"

fun apply_improvements :: "(string \<times> string) list \<Rightarrow> string \<Rightarrow> string" where
  "apply_improvements [] q = q"
| "apply_improvements ((keyword, improvement) # rest) q =
     (if str_in keyword q \<and> \<not> str_in improvement q then improvement @ '' '' @ q
      else apply_improvements rest q)"

definition optimize_search_query :: "string \<Rightarrow> string" where
  "optimize_search_query query =
     str_join '' '' (str_split (apply_improvements improvements
                                  (remove_fillers filler_words (str_lower query))))"

section \<open>Price range\<close>

text \<open>
  An exception is the text that \<open>str(e)\<close> gives: the code reads nothing else of it.
  A computation that may raise returns \<open>exn + 'a\<close>, \<open>Inl\<close> the exception.
\<close>

type_synonym exn = string

text \<open>
  Each price pattern is kept with its source text, which the code inspects
  (\<open>'under' in pattern\<close>), and its tokens. \<open>bsl\<close> is the backslash.
\<close>

definition bsl :: string where
  "bsl = [CHR 0x5C]"

definition opt_dollar :: tok where
  "opt_dollar = Opt (Ch (CHR ''$''))"

definition number_group :: "tok list" where
  "number_group = [GOpen, Plus Dig, GClose]"

definition price_patterns :: "(string \<times> tok list) list" where
  "price_patterns =
     [(''under'' @ bsl @ ''s*'' @ bsl @ ''$?('' @ bsl @ ''d+)'',
       lit ''under'' @ [Star WS, opt_dollar] @ number_group),
      (''below'' @ bsl @ ''s*'' @ bsl @ ''$?('' @ bsl @ ''d+)'',
       lit ''below'' @ [Star WS, opt_dollar] @ number_group),
      (''less than'' @ bsl @ ''s*'' @ bsl @ ''$?('' @ bsl @ ''d+)'',
       lit ''less than'' @ [Star WS, opt_dollar] @ number_group),
      (bsl @ ''$?('' @ bsl @ ''d+)'' @ bsl @ ''s*-'' @ bsl @ ''s*'' @ bsl @ ''$?('' @ bsl @ ''d+)'',
       [opt_dollar] @ number_group @ [Star WS] @ lit ''-'' @ [Star WS, opt_dollar] @ number_group),
      (''between'' @ bsl @ ''s*'' @ bsl @ ''$?('' @ bsl @ ''d+)'' @ bsl @ ''s*and'' @ bsl @ ''s*''
         @ bsl @ ''$?('' @ bsl @ ''d+)'',
       lit ''between'' @ [Star WS, opt_dollar] @ number_group @ [Star WS] @ lit ''and''
         @ [Star WS, opt_dollar] @ number_group),
      (bsl @ ''$?('' @ bsl @ ''d+)'' @ bsl @ ''s*to'' @ bsl @ ''s*'' @ bsl @ ''$?('' @ bsl @ ''d+)'',
       [opt_dollar] @ number_group @ [Star WS] @ lit ''to'' @ [Star WS, opt_dollar] @ number_group)]"

text \<open>\<open>match.group(i)\<close>, counted from 1; a group the pattern does not have is an IndexError.\<close>

definition group :: "string list \<Rightarrow> nat \<Rightarrow> exn + string" where
  "group gs i = (if 1 \<le> i \<and> i \<le> length gs then Inr (gs ! (i - 1)) else Inl ''no such group'')"

text \<open>\<open>'under' in pattern or 'below' in pattern or 'less than' in pattern\<close>\<close>

definition upper_bound_pattern :: "string \<Rightarrow> bool" where
  "upper_bound_pattern pattern =
     (str_in ''under'' pattern \<or> str_in ''below'' pattern \<or> str_in ''less than'' pattern)"

fun price_scan :: "(string \<times> tok list) list \<Rightarrow> string \<Rightarrow> exn + (int option \<times> int option)" where
  "price_scan [] q = Inr (None, None)"
| "price_scan ((pattern, toks) # rest) q =
     (case re_search toks q of
        None \<Rightarrow> price_scan rest q
      | Some gs \<Rightarrow>
          if upper_bound_pattern pattern
          then (case group gs 1 of Inl e \<Rightarrow> Inl e
                | Inr g1 \<Rightarrow> Inr (None, Some (int_of_digits g1)))
          else (case group gs 1 of Inl e \<Rightarrow> Inl e
                | Inr g1 \<Rightarrow>
                    (case group gs 2 of Inl e \<Rightarrow> Inl e
                     | Inr g2 \<Rightarrow> Inr (Some (int_of_digits g1), Some (int_of_digits g2)))))"

definition extract_price_range :: "string \<Rightarrow> exn + (int option \<times> int option)" where
  "extract_price_range query = price_scan price_patterns (str_lower query)"

section \<open>Smart packing list\<close>

definition base_items :: "string list" where
  "base_items = [''travel backpack'', ''phone charger'', ''toiletry bag'', ''travel adapter'']"

definition long_trip_items :: "string list" where
  "long_trip_items = [''laundry detergent pods'', ''extra underwear'', ''medication organizer'']"

definition short_trip_items :: "string list" where
  "short_trip_items = [''travel size toiletries'', ''compact packing cubes'']"

definition climate_items :: "(string \<times> string list) list" where
  "climate_items =
     [(''tropical'', [''sunscreen SPF 50'', ''insect repellent'', ''lightweight clothing'',
                      ''sandals'', ''sun hat'']),
      (''beach'', [''swimsuit'', ''beach towel'', ''waterproof phone case'', ''flip flops'',
                   ''beach bag'']),
      (''cold'', [''thermal underwear'', ''winter jacket'', ''warm gloves'', ''beanie'',
                  ''wool socks'']),
      (''mountain'', [''hiking boots'', ''rain jacket'', ''first aid kit'', ''headlamp'',
                      ''trekking poles'']),
      (''city'', [''comfortable walking shoes'', ''day pack'', ''portable charger'',
                  ''city guidebook'']),
      (''business'', [''business attire'', ''laptop bag'', ''dress shoes'', ''iron travel size'',
                      ''business cards'']),
      (''camping'', [''sleeping bag'', ''camping tent'', ''camping stove'',
                     ''water purification tablets'', ''multi-tool''])]"

definition activities :: "(string \<times> string list) list" where
  "activities =
     [(''photography'', [''camera equipment'', ''extra batteries'', ''memory cards'',
                         ''lens cleaning kit'']),
      (''fitness'', [''workout clothes'', ''running shoes'', ''fitness tracker'', ''protein bars'']),
      (''cooking'', [''portable cooking set'', ''spices travel kit'', ''cooler bag'',
                     ''cutting board'']),
      (''reading'', [''e-reader'', ''reading light'', ''book stand'', ''blue light glasses''])]"

text \<open>\<open>any(word in text for word in words)\<close>\<close>

definition any_in :: "string list \<Rightarrow> string \<Rightarrow> bool" where
  "any_in words txt = list_ex (\<lambda>word. str_in word txt) words"

text \<open>The \<open>if\<close>/\<open>elif\<close> on the duration keywords.\<close>

definition duration_items :: "string \<Rightarrow> string list" where
  "duration_items question_lower =
     (if any_in [''week'', ''7 day'', ''long trip''] question_lower then long_trip_items
      else if any_in [''weekend'', ''2 day'', ''3 day'', ''short trip''] question_lower
      then short_trip_items
      else [])"

text \<open>The loop over the climate table, which stops at the first keyword found.\<close>

fun climate_scan :: "(string \<times> string list) list \<Rightarrow> string \<Rightarrow> string list" where
  "climate_scan [] question_lower = []"
| "climate_scan ((climate, items) # rest) question_lower =
     (if any_in [climate, str_replace ''_'' '' '' climate] question_lower then items
      else climate_scan rest question_lower)"

text \<open>The loop over the activities, which takes every keyword found.\<close>

fun activity_scan :: "(string \<times> string list) list \<Rightarrow> string \<Rightarrow> string list" where
  "activity_scan [] question_lower = []"
| "activity_scan ((activity, items) # rest) question_lower =
     (if str_in activity question_lower then items @ activity_scan rest question_lower
      else activity_scan rest question_lower)"

text \<open>
  \<open>list(dict.fromkeys(xs))\<close>: the keys of a dictionary stand in the order of their
  first insertion, so each element stays at its first occurrence.
\<close>

definition dict_fromkeys :: "'a list \<Rightarrow> 'a list" where
  "dict_fromkeys xs = foldl (\<lambda>keys x. if x \<in> set keys then keys else keys @ [x]) [] xs"

definition generate_smart_packing_list :: "string \<Rightarrow> string list" where
  "generate_smart_packing_list question =
     (let question_lower = str_lower question;
          base = base_items @ duration_items question_lower;
          packing_items = climate_scan climate_items question_lower
                          @ activity_scan activities question_lower
      in dict_fromkeys (base @ packing_items))"

section \<open>Python numbers\<close>

text \<open>
  A Python float is a finite number, an infinity or NaN; a finite float is modelled by
  the real number it denotes. Every comparison with NaN is false, also \<open>==\<close> of NaN
  with itself. A number of the provider's JSON is an integer or a float.
\<close>

datatype pyfloat = NaN | NegInf | Fin real | PosInf

datatype pynum = PyInt int | PyFloat pyfloat

text \<open>\<open>a < b\<close> on floats.\<close>

fun float_lt :: "pyfloat \<Rightarrow> pyfloat \<Rightarrow> bool" where
  "float_lt (Fin x) (Fin y) = (x < y)"
| "float_lt NegInf (Fin y) = True"
| "float_lt NegInf PosInf = True"
| "float_lt (Fin x) PosInf = True"
| "float_lt a b = False"

text \<open>\<open>a >= b\<close> on floats.\<close>

definition float_ge :: "pyfloat \<Rightarrow> pyfloat \<Rightarrow> bool" where
  "float_ge a b = (float_lt b a \<or> (a = b \<and> a \<noteq> NaN))"

text \<open>
  The place of a float that is not NaN in the order of the floats: the infinities
  below and above the finite numbers.
\<close>

fun float_rank :: "pyfloat \<Rightarrow> int \<times> real" where
  "float_rank NegInf = (- 1, 0)"
| "float_rank (Fin x) = (0, x)"
| "float_rank PosInf = (1, 0)"
| "float_rank NaN = (2, 0)"

text \<open>\<open>int(x)\<close> on a float: truncation towards zero; it raises on NaN and the infinities.\<close>

definition int_of_float :: "pyfloat \<Rightarrow> exn + int" where
  "int_of_float x =
     (case x of
        NaN \<Rightarrow> Inl ''cannot convert float NaN to integer''
      | NegInf \<Rightarrow> Inl ''cannot convert float infinity to integer''
      | PosInf \<Rightarrow> Inl ''cannot convert float infinity to integer''
      | Fin r \<Rightarrow> Inr (if 0 \<le> r then \<lfloor>r\<rfloor> else \<lceil>r\<rceil>))"

section \<open>Provider records and products\<close>

text \<open>
  A record of the provider's \<open>organic_results\<close> has optional fields. The code
  inspects the type of two of them, which are tagged unions here: the rating (an integer,
  a float, a text, or a value of another type, on which \<open>float\<close> raises TypeError) and the
  price (a dictionary with an optional \<open>value\<close>, a text, or a number). The other fields
  have the types of the provider's schema: texts, an integer review count and booleans.
  The rating of a product is a float; the integer 0 that the code starts from is the
  float 0, which every comparison and test of the code treats alike.
\<close>

datatype price = PriceNum pynum | PriceText string

datatype raw_price = PriceAbsent | RawPriceDict "price option" | RawPriceStr string | RawPriceNum pynum

datatype raw_rating = RatingAbsent | RatingInt int | RatingFloat pyfloat | RatingStr string | RatingOther

record raw_product =
  raw_asin :: "string option"
  raw_title :: "string option"
  raw_link :: "string option"
  raw_price :: raw_price
  raw_rating :: raw_rating
  raw_reviews :: "int option"
  raw_thumbnail :: "string option"
  raw_delivery :: "string option"
  raw_prime :: "bool option"
  raw_sponsored :: "bool option"

record product =
  asin :: string
  title :: string
  link :: string
  price :: price
  rating :: pyfloat
  reviews :: int
  thumbnail :: string
  delivery :: string
  prime :: bool
  sponsored :: bool

record search_params =
  p_engine :: string
  p_amazon_domain :: string
  p_k :: string
  p_api_key :: string
  p_low_price :: "int option"
  p_high_price :: "int option"

text \<open>
  \<open>list.sort\<close> on keys that \<open><\<close> does not order, which is the case of a NaN rating,
  leaves the list in an order that depends on the interpreter's sorting algorithm, and
  always a permutation of the list. A \<open>sorter\<close> is such a rearrangement.
\<close>

typedef sorter = "{f :: product list \<Rightarrow> product list. \<forall>xs. mset (f xs) = mset xs}"
proof
  show "(\<lambda>xs. xs) \<in> {f :: product list \<Rightarrow> product list. \<forall>xs. mset (f xs) = mset xs}"
    by simp
qed

definition identity_sorter :: sorter where
  "identity_sorter = Abs_sorter (\<lambda>xs. xs)"

text \<open>
  What the code calls and does not define is a parameter. The secret store and the
  provider answer the \<open>n\<close>-th search as they like, so both take the number of the
  search: \<open>get_serpapi_key\<close> gives the key or raises; \<open>google_search\<close> is
  \<open>GoogleSearch(params).get_dict()\<close> read at \<open>organic_results\<close> (\<open>None\<close> when the key is
  absent), or raises. \<open>py_float\<close> is \<open>float\<close> on a text, which raises ValueError or gives
  a float, NaN and the infinities among them; \<open>py_float_int\<close> is \<open>float\<close> on an integer,
  which raises OverflowError on a large one. \<open>format_2f\<close> is the format \<open>:.2f\<close>, which
  raises OverflowError on a large integer, and \<open>str_float\<close> is \<open>str\<close> on a float.
  \<open>repeat_error\<close> says for which counts the repetition of a text (\<open>text * count\<close>)
  raises, OverflowError or MemoryError, and with which message. \<open>sort_unordered\<close> is
  what \<open>list.sort\<close> does to products when a rating is NaN.
\<close>

record env =
  get_serpapi_key :: "nat \<Rightarrow> exn + string"
  google_search :: "nat \<Rightarrow> search_params \<Rightarrow> exn + raw_product list option"
  py_float :: "string \<Rightarrow> exn + pyfloat"
  py_float_int :: "int \<Rightarrow> exn + pyfloat"
  format_2f :: "pynum \<Rightarrow> exn + string"
  str_float :: "pyfloat \<Rightarrow> string"
  repeat_error :: "nat \<Rightarrow> exn option"
  sort_unordered :: sorter

record search_result =
  success :: bool
  error :: "exn option"
  products :: "product list"
  total_results :: nat

section \<open>Provider client\<close>

text \<open>
  The rating of a record. It is 0 unless the field is truthy; a float other than 0, NaN
  and the infinities included, is truthy. The ValueError and the TypeError of \<open>float\<close>
  are caught and give 0; its OverflowError on a large integer is not caught there.
\<close>

definition rating_of :: "env \<Rightarrow> raw_rating \<Rightarrow> exn + pyfloat" where
  "rating_of e rr =
     (case rr of
        RatingAbsent \<Rightarrow> Inr (Fin 0)
      | RatingInt i \<Rightarrow> (if i \<noteq> 0 then py_float_int e i else Inr (Fin 0))
      | RatingFloat x \<Rightarrow> (if x \<noteq> Fin 0 then Inr x else Inr (Fin 0))
      | RatingStr s \<Rightarrow>
          (if s \<noteq> [] then (case py_float e s of Inl err \<Rightarrow> Inr (Fin 0) | Inr x \<Rightarrow> Inr x)
           else Inr (Fin 0))
      | RatingOther \<Rightarrow> Inr (Fin 0))"

text \<open>
  The price of a record. The pattern is \<open>\$?([\d,]+\.?\d*)\<close>; the \<open>float\<close> of its group
  without the commas is not guarded, so its ValueError leaves the loop.
\<close>

definition price_regex :: "tok list" where
  "price_regex = [opt_dollar, GOpen, Plus DigComma, Opt (Ch (CHR ''.'')), Star Dig, GClose]"

definition price_of :: "env \<Rightarrow> raw_price \<Rightarrow> exn + price" where
  "price_of e price_raw =
     (case price_raw of
        PriceAbsent \<Rightarrow> Inr (PriceText ''N/A'')
      | RawPriceDict v \<Rightarrow> Inr (case v of None \<Rightarrow> PriceText ''N/A'' | Some pv \<Rightarrow> pv)
      | RawPriceStr s \<Rightarrow>
          (case re_search price_regex s of
             None \<Rightarrow> Inr (PriceText s)
           | Some gs \<Rightarrow>
               (case group gs 1 of Inl err \<Rightarrow> Inl err
                | Inr g \<Rightarrow>
                    (case py_float e (str_replace '','' [] g) of Inl err \<Rightarrow> Inl err
                     | Inr x \<Rightarrow> Inr (PriceNum (PyFloat x)))))
      | RawPriceNum x \<Rightarrow> Inr (PriceNum x))"

text \<open>\<open>d.get(key, default)\<close> on an optional field.\<close>

definition get_or :: "'a option \<Rightarrow> 'a \<Rightarrow> 'a" where
  "get_or field dflt = (case field of None \<Rightarrow> dflt | Some v \<Rightarrow> v)"

definition product_info :: "raw_product \<Rightarrow> price \<Rightarrow> pyfloat \<Rightarrow> product" where
  "product_info p price_value rt =
     \<lparr>asin = get_or (raw_asin p) [], title = get_or (raw_title p) [],
      link = get_or (raw_link p) [], price = price_value, rating = rt,
      reviews = get_or (raw_reviews p) 0, thumbnail = get_or (raw_thumbnail p) [],
      delivery = get_or (raw_delivery p) [], prime = get_or (raw_prime p) False,
      sponsored = get_or (raw_sponsored p) False\<rparr>"

text \<open>
  The loop over \<open>organic_results\<close>, with the list collected so far. The rating filter
  is \<open>rating > 0 and rating < min_rating\<close> and a \<open>continue\<close>, so it also skips the test
  on \<open>max_results\<close>; that test is a \<open>break\<close>.
\<close>

fun collect_products :: "env \<Rightarrow> real \<Rightarrow> int \<Rightarrow> raw_product list \<Rightarrow> product list \<Rightarrow> exn + product list" where
  "collect_products e min_rating max_results [] acc = Inr acc"
| "collect_products e min_rating max_results (p # rest) acc =
     (case rating_of e (raw_rating p) of
        Inl err \<Rightarrow> Inl err
      | Inr rt \<Rightarrow>
          if float_lt (Fin 0) rt \<and> float_lt rt (Fin min_rating)
          then collect_products e min_rating max_results rest acc
          else
            (case price_of e (raw_price p) of
               Inl err \<Rightarrow> Inl err
             | Inr price_value \<Rightarrow>
                 (let info = product_info p price_value rt;
                      acc' = (if asin info \<noteq> [] then acc @ [info] else acc)
                  in if int (length acc') \<ge> max_results then Inr acc'
                     else collect_products e min_rating max_results rest acc')))"

text \<open>\<open>if min_price:\<close> holds for a number that is present and not 0.\<close>

definition truthy_price :: "int option \<Rightarrow> int option" where
  "truthy_price v = (case v of None \<Rightarrow> None | Some n \<Rightarrow> if n \<noteq> 0 then Some n else None)"

text \<open>The body of the \<open>try\<close> up to the sort: the products in the provider's order.\<close>

definition collected :: "env \<Rightarrow> nat \<Rightarrow> string \<Rightarrow> int \<Rightarrow> real \<Rightarrow> exn + product list" where
  "collected e n query max_results min_rating =
     (case get_serpapi_key e n of
        Inl err \<Rightarrow> Inl err
      | Inr key \<Rightarrow>
          (let optimized_query = optimize_search_query query in
           case extract_price_range query of
             Inl err \<Rightarrow> Inl err
           | Inr (min_price, max_price) \<Rightarrow>
               (let params = \<lparr>p_engine = ''amazon'', p_amazon_domain = ''amazon.com'',
                              p_k = optimized_query, p_api_key = key,
                              p_low_price = truthy_price min_price,
                              p_high_price = truthy_price max_price\<rparr>
                in case google_search e n params of
                     Inl err \<Rightarrow> Inl err
                   | Inr results \<Rightarrow>
                       collect_products e min_rating max_results (get_or results []) [])))"

text \<open>
  \<open>products.sort(key=lambda x: (x["rating"], x["reviews"]), reverse=True)\<close>. When no
  rating is NaN the keys are linearly ordered and the sort is the stable sort,
  descending: CPython reverses the list, sorts it ascending and stably, and reverses the
  result. With a NaN rating the comparisons order nothing about that rating, and the
  outcome is the interpreter's rearrangement of the list.
\<close>

definition sort_key_of :: "product \<Rightarrow> (int \<times> real) \<times> int" where
  "sort_key_of x = (float_rank (rating x), reviews x)"

definition sort_reverse :: "env \<Rightarrow> product list \<Rightarrow> product list" where
  "sort_reverse e ps =
     (if list_ex (\<lambda>p. rating p = NaN) ps then Rep_sorter (sort_unordered e) ps
      else rev (sort_key sort_key_of (rev ps)))"

text \<open>
  \<open>search_amazon_products\<close>, with the number \<open>n\<close> of the search. The \<open>except\<close> clause
  turns every exception of the body into the failure result.
\<close>

definition search_amazon_products :: "env \<Rightarrow> nat \<Rightarrow> string \<Rightarrow> int \<Rightarrow> real \<Rightarrow> search_result" where
  "search_amazon_products e n query max_results min_rating =
     (case collected e n query max_results min_rating of
        Inr ps \<Rightarrow>
          (let sorted_ps = sort_reverse e ps
           in \<lparr>success = True, error = None, products = sorted_ps,
               total_results = length sorted_ps\<rparr>)
      | Inl err \<Rightarrow> \<lparr>success = False, error = Some err, products = [], total_results = 0\<rparr>)"

text \<open>\<open>search_results["success"] and search_results["products"]\<close>, the test of both callers.\<close>

definition found_products :: "search_result \<Rightarrow> bool" where
  "found_products r = (success r \<and> products r \<noteq> [])"

section \<open>Answer texts\<close>

text \<open>The glyphs of the templates, as their UTF-8 bytes, the newline and the backquote.\<close>

definition glyph_shopping_bags :: string where
  \<comment> \<open>U+1F6CD U+FE0F\<close>
  "glyph_shopping_bags = [CHR 0xF0, CHR 0x9F, CHR 0x9B, CHR 0x8D, CHR 0xEF, CHR 0xB8, CHR 0x8F]"

definition glyph_money_bag :: string where
  \<comment> \<open>U+1F4B0\<close>
  "glyph_money_bag = [CHR 0xF0, CHR 0x9F, CHR 0x92, CHR 0xB0]"

definition glyph_star :: string where
  \<comment> \<open>U+2B50\<close>
  "glyph_star = [CHR 0xE2, CHR 0xAD, CHR 0x90]"

definition glyph_truck :: string where
  \<comment> \<open>U+1F69A\<close>
  "glyph_truck = [CHR 0xF0, CHR 0x9F, CHR 0x9A, CHR 0x9A]"

definition glyph_link :: string where
  \<comment> \<open>U+1F517\<close>
  "glyph_link = [CHR 0xF0, CHR 0x9F, CHR 0x94, CHR 0x97]"

definition glyph_cart :: string where
  \<comment> \<open>U+1F6D2\<close>
  "glyph_cart = [CHR 0xF0, CHR 0x9F, CHR 0x9B, CHR 0x92]"

definition glyph_package :: string where
  \<comment> \<open>U+1F4E6\<close>
  "glyph_package = [CHR 0xF0, CHR 0x9F, CHR 0x93, CHR 0xA6]"

definition glyph_target :: string where
  \<comment> \<open>U+1F3AF\<close>
  "glyph_target = [CHR 0xF0, CHR 0x9F, CHR 0x8E, CHR 0xAF]"

definition glyph_bullet :: string where
  \<comment> \<open>U+2022\<close>
  "glyph_bullet = [CHR 0xE2, CHR 0x80, CHR 0xA2]"

definition glyph_bulb :: string where
  \<comment> \<open>U+1F4A1\<close>
  "glyph_bulb = [CHR 0xF0, CHR 0x9F, CHR 0x92, CHR 0xA1]"

definition glyph_backpack :: string where
  \<comment> \<open>U+1F392\<close>
  "glyph_backpack = [CHR 0xF0, CHR 0x9F, CHR 0x8E, CHR 0x92]"

definition glyph_trophy :: string where
  \<comment> \<open>U+1F3C6\<close>
  "glyph_trophy = [CHR 0xF0, CHR 0x9F, CHR 0x8F, CHR 0x86]"

definition glyph_cross :: string where
  \<comment> \<open>U+274C\<close>
  "glyph_cross = [CHR 0xE2, CHR 0x9D, CHR 0x8C]"

definition glyph_check :: string where
  \<comment> \<open>U+2705\<close>
  "glyph_check = [CHR 0xE2, CHR 0x9C, CHR 0x85]"

definition glyph_warning :: string where
  \<comment> \<open>U+26A0 U+FE0F\<close>
  "glyph_warning = [CHR 0xE2, CHR 0x9A, CHR 0xA0, CHR 0xEF, CHR 0xB8, CHR 0x8F]"

definition nl :: string where
  "nl = [CHR 0x0A]"

definition backquote :: string where
  "backquote = [CHR 0x60]"

definition quote :: string where
  "quote = [CHR 0x27]"

text \<open>
  The price as the answers print it: \<open>$\<close> and two decimals for a number, else the text.
  The format raises on an integer too large for a float.
\<close>

definition price_str :: "env \<Rightarrow> price \<Rightarrow> exn + string" where
  "price_str e pv =
     (case pv of
        PriceNum x \<Rightarrow> (case format_2f e x of Inl err \<Rightarrow> Inl err | Inr s \<Rightarrow> Inr (''$'' @ s))
      | PriceText s \<Rightarrow> Inr s)"

text \<open>
  \<open>glyph * int(rating)\<close>: \<open>int\<close> raises on an infinite rating, and the repetition raises
  on a count too large; a count below 1 gives the empty text.
\<close>

definition stars :: "env \<Rightarrow> pyfloat \<Rightarrow> exn + string" where
  "stars e rt =
     (case int_of_float rt of
        Inl err \<Rightarrow> Inl err
      | Inr k \<Rightarrow>
          (case repeat_error e (nat k) of
             Some err \<Rightarrow> Inl err
           | None \<Rightarrow> Inr (concat (replicate (nat k) glyph_star))))"

text \<open>\<open>product.get("rating") and product["rating"] > 0\<close>\<close>

definition rated :: "product \<Rightarrow> bool" where
  "rated p = (rating p \<noteq> Fin 0 \<and> float_lt (Fin 0) (rating p))"

text \<open>
  A loop that appends to the answer one text for each element, and that the first
  exception leaves.
\<close>

fun concat_raise :: "('a \<Rightarrow> exn + string) \<Rightarrow> 'a list \<Rightarrow> exn + string" where
  "concat_raise f [] = Inr []"
| "concat_raise f (x # xs) =
     (case f x of
        Inl err \<Rightarrow> Inl err
      | Inr s \<Rightarrow> (case concat_raise f xs of Inl err \<Rightarrow> Inl err | Inr rest \<Rightarrow> Inr (s @ rest)))"

section \<open>Search orchestrator\<close>

record product_list =
  sp_answer :: string
  sp_asins :: "string list"
  sp_products :: "product list"

definition search_attempts :: "string \<Rightarrow> string list" where
  "search_attempts question =
     (let question_lower = str_lower question
      in [question, optimize_search_query question]
         @ (if any_in [''best'', ''top'', ''good'', ''recommend''] question_lower
            then [''best rated '' @ optimize_search_query question] else [])
         @ (if str_in ''cheap'' question_lower \<or> str_in ''budget'' question_lower
            then [''budget '' @ optimize_search_query question] else []))"

text \<open>
  The loop over the attempts, with the number of the next search and \<open>last_error\<close>
  (\<open>None\<close> at the start). It returns the products of the first attempt that succeeds with
  a product, or the empty list, then \<open>last_error\<close>, then the number of the next search,
  which counts the searches made.
\<close>

definition recorded_error :: "search_result \<Rightarrow> exn" where
  "recorded_error r = get_or (error r) ''No products found''"

fun try_attempts :: "env \<Rightarrow> nat \<Rightarrow> string list \<Rightarrow> exn option \<Rightarrow> product list \<times> exn option \<times> nat" where
  "try_attempts e n [] last_error = ([], last_error, n)"
| "try_attempts e n (search_query # rest) last_error =
     (let search_results = search_amazon_products e n search_query 12 3.5
      in if found_products search_results
         then (products search_results, last_error, Suc n)
         else try_attempts e (Suc n) rest (Some (recorded_error search_results)))"

text \<open>\<open>str\<close> of \<open>last_error\<close>, which is \<open>None\<close> or a text.\<close>

definition str_opt :: "exn option \<Rightarrow> string" where
  "str_opt v = (case v of None \<Rightarrow> ''None'' | Some s \<Rightarrow> s)"

text \<open>The text of one product: the price is formatted first, the stars after.\<close>

definition product_entry :: "env \<Rightarrow> nat \<times> product \<Rightarrow> exn + string" where
  "product_entry e ip =
     (case ip of (i, p) \<Rightarrow>
        (case price_str e (price p) of
           Inl err \<Rightarrow> Inl err
         | Inr price_text \<Rightarrow>
             (case (if rated p
                    then (case stars e (rating p) of
                            Inl err \<Rightarrow> Inl err
                          | Inr st \<Rightarrow>
                              Inr ('' | '' @ st @ '' '' @ str_float e (rating p) @ ''/5''
                                   @ (if reviews p \<noteq> 0
                                      then '' ('' @ str_int (reviews p) @ '' reviews)'' else [])))
                    else Inr []) of
                Inl err \<Rightarrow> Inl err
              | Inr rating_text \<Rightarrow>
                  Inr (''**'' @ str_nat i @ ''. '' @ take 80 (title p)
                       @ (if length (title p) > 80 then ''...'' else [])
                       @ ''**'' @ nl
                       @ ''   '' @ glyph_money_bag @ '' **Price**: '' @ price_text
                       @ rating_text
                       @ (if prime p then '' | '' @ glyph_truck @ '' **Prime Eligible**'' else [])
                       @ nl @ ''   '' @ glyph_link @ '' **ASIN**: '' @ backquote @ asin p @ backquote
                       @ nl @ ''   '' @ glyph_cart @ '' **Link**: https://www.amazon.com/dp/'' @ asin p
                       @ nl @ ''   '' @ glyph_package @ '' **Cart Data**: ASIN: '' @ asin p
                       @ '', Price: '' @ price_text @ nl @ nl))))"

definition search_footer :: string where
  "search_footer =
     glyph_target @ '' **Ready to Shop?**'' @ nl
     @ glyph_bullet @ '' Tell me which items you'' @ quote
     @ ''d like to add to your cart (e.g., '' @ quote @ ''Add item 1 and 3'' @ quote @ '')'' @ nl
     @ glyph_bullet @ '' Say '' @ quote @ ''add all to cart'' @ quote @ '' to add all products'' @ nl
     @ glyph_bullet @ '' Or ask me to find more specific products!'' @ nl @ nl
     @ glyph_bulb
     @ '' **Pro Tip**: I can help you add items to your cart and complete your purchase seamlessly!''"

text \<open>
  The body of the \<open>try\<close> of \<open>search_products\<close>, with the number \<open>n\<close> of its first
  search: the result, or the exception that the formatting of a product raises.
\<close>

definition search_products_body :: "env \<Rightarrow> nat \<Rightarrow> string \<Rightarrow> string \<Rightarrow> exn + product_list" where
  "search_products_body e n user_id question =
     (case try_attempts e n (search_attempts question) None of
        (found, last_error, searches) \<Rightarrow>
          if found = []
          then Inr \<lparr>sp_answer = ''No products found matching '' @ quote @ question @ quote
                       @ ''. Try being more specific or using different keywords. Error: ''
                       @ str_opt last_error,
                    sp_asins = [], sp_products = []\<rparr>
          else
            (let asins = map asin (filter (\<lambda>p. asin p \<noteq> []) found)
             in case concat_raise (product_entry e) (List.enumerate 1 (take 8 found)) of
                  Inl err \<Rightarrow> Inl err
                | Inr entries \<Rightarrow>
                    Inr \<lparr>sp_answer = strip
                            (glyph_shopping_bags @ '' **Found '' @ str_nat (length found)
                             @ '' high-quality products for '' @ quote @ question @ quote
                             @ ''**'' @ nl @ nl @ entries @ search_footer),
                         sp_asins = asins, sp_products = found\<rparr>))"

text \<open>\<open>search_products\<close>: the \<open>except\<close> clause answers every exception of the body.\<close>

definition search_products :: "env \<Rightarrow> nat \<Rightarrow> string \<Rightarrow> string \<Rightarrow> product_list" where
  "search_products e n user_id question =
     (case search_products_body e n user_id question of
        Inr r \<Rightarrow> r
      | Inl err \<Rightarrow>
          \<lparr>sp_answer = ''An error occurred while searching for products: '' @ err
              @ ''. Please try rephrasing your search or try again later.'',
           sp_asins = [], sp_products = []\<rparr>)"

section \<open>Packing list generator\<close>

record packing_item =
  item :: string
  item_products :: "product list"

record packing_list =
  pl_answer :: string
  pl_asins :: "string \<rightharpoonup> string list"
  pl_items :: "packing_item list"

text \<open>The three queries of an item, in the order in which they are tried.\<close>

definition item_queries :: "string \<Rightarrow> string list" where
  "item_queries it = [''travel '' @ it, ''best '' @ it, it]"

text \<open>
  The loop over the queries of an item: the first three products of the first search
  that succeeds with a product, or the empty list, and the number of the next search.
\<close>

fun try_queries :: "env \<Rightarrow> nat \<Rightarrow> string list \<Rightarrow> product list \<times> nat" where
  "try_queries e n [] = ([], n)"
| "try_queries e n (search_query # rest) =
     (let search_results = search_amazon_products e n search_query 4 3.5
      in if found_products search_results
         then (take 3 (products search_results), Suc n)
         else try_queries e (Suc n) rest)"

definition recommendation :: "env \<Rightarrow> nat \<times> product \<Rightarrow> exn + string" where
  "recommendation e ip =
     (case ip of (i, p) \<Rightarrow>
        (case price_str e (price p) of
           Inl err \<Rightarrow> Inl err
         | Inr price_text \<Rightarrow>
             (case (if rated p
                    then (case stars e (rating p) of
                            Inl err \<Rightarrow> Inl err
                          | Inr st \<Rightarrow> Inr ('' | '' @ st @ '' '' @ str_float e (rating p) @ ''/5''))
                    else Inr []) of
                Inl err \<Rightarrow> Inl err
              | Inr rating_text \<Rightarrow>
                  Inr (''   '' @ str_nat i @ ''. **''
                       @ (if length (title p) > 50 then take 50 (title p) @ ''...'' else title p)
                       @ ''**'' @ nl
                       @ ''      '' @ glyph_money_bag @ '' '' @ price_text
                       @ rating_text
                       @ (if prime p then '' | '' @ glyph_truck @ '' Prime'' else [])
                       @ nl @ ''      '' @ glyph_cart @ '' ASIN: '' @ asin p @ nl))))"

text \<open>The state of the loop over the items: the variables the loop writes.\<close>

record packing_state =
  ps_answer :: string
  ps_results :: "packing_item list"
  ps_asins_dict :: "string \<rightharpoonup> string list"
  ps_failed_searches :: "string list"
  ps_next :: nat

text \<open>One round of the loop: the new state, or the exception of a recommendation.\<close>

definition packing_step :: "env \<Rightarrow> string \<Rightarrow> packing_state \<Rightarrow> exn + packing_state" where
  "packing_step e it st =
     (case try_queries e (ps_next st) (item_queries it) of
        (found, n') \<Rightarrow>
          if found \<noteq> []
          then (case concat_raise (recommendation e) (List.enumerate 1 found) of
                  Inl err \<Rightarrow> Inl err
                | Inr recommendations \<Rightarrow>
                    Inr (st\<lparr>ps_answer := ps_answer st
                               @ glyph_package @ '' **'' @ str_title it @ ''**'' @ nl
                               @ ''   '' @ glyph_trophy @ '' **Top Recommendations:**'' @ nl
                               @ recommendations @ nl,
                            ps_results := ps_results st @ [\<lparr>item = it, item_products = found\<rparr>],
                            ps_asins_dict := (ps_asins_dict st)
                               (it \<mapsto> map asin (filter (\<lambda>p. asin p \<noteq> []) found)),
                            ps_next := n'\<rparr>))
          else Inr (st\<lparr>ps_answer := ps_answer st
                         @ glyph_package @ '' **'' @ str_title it @ ''**'' @ nl
                         @ ''   '' @ glyph_cross @ '' No specific products found - search manually''
                         @ nl @ nl,
                      ps_failed_searches := ps_failed_searches st @ [it],
                      ps_next := n'\<rparr>))"

fun packing_loop :: "env \<Rightarrow> string list \<Rightarrow> packing_state \<Rightarrow> exn + packing_state" where
  "packing_loop e [] st = Inr st"
| "packing_loop e (it # rest) st =
     (case packing_step e it st of Inl err \<Rightarrow> Inl err | Inr st' \<Rightarrow> packing_loop e rest st')"

definition packing_summary :: "string \<Rightarrow> packing_state \<Rightarrow> string" where
  "packing_summary question st =
     (if ps_results st \<noteq> []
      then ps_answer st
           @ glyph_check @ '' **Found products for '' @ str_nat (length (ps_results st))
           @ '' items**'' @ nl
           @ (if ps_failed_searches st \<noteq> []
              then glyph_warning @ '' **Manual search needed for:** ''
                   @ str_join '', '' (ps_failed_searches st) @ nl
              else [])
           @ nl @ glyph_bulb @ '' **Tip:** Ask me to add any items to your cart!''
      else ''Unable to find specific product recommendations for your packing list: ''
           @ question @ ''. Try searching for individual items.'')"

text \<open>The items searched: the first ten of the smart packing list.\<close>

definition priority_items :: "string \<Rightarrow> string list" where
  "priority_items question = take 10 (generate_smart_packing_list question)"

text \<open>
  The body of the \<open>try\<close> of \<open>generate_packing_list\<close>, with the number \<open>n\<close> of its
  first search.
\<close>

definition generate_packing_list_body :: "env \<Rightarrow> nat \<Rightarrow> string \<Rightarrow> string \<Rightarrow> exn + packing_list" where
  "generate_packing_list_body e n user_id question =
     (case packing_loop e (priority_items question)
             \<lparr>ps_answer = glyph_backpack @ '' **Smart Packing List for: '' @ question
                 @ ''**'' @ nl @ nl,
              ps_results = [], ps_asins_dict = Map.empty, ps_failed_searches = [],
              ps_next = n\<rparr> of
        Inl err \<Rightarrow> Inl err
      | Inr st \<Rightarrow>
          Inr \<lparr>pl_answer = strip (packing_summary question st), pl_asins = ps_asins_dict st,
               pl_items = ps_results st\<rparr>)"

text \<open>\<open>generate_packing_list\<close>: the \<open>except\<close> clause answers every exception of the body.\<close>

definition generate_packing_list :: "env \<Rightarrow> nat \<Rightarrow> string \<Rightarrow> string \<Rightarrow> packing_list" where
  "generate_packing_list e n user_id question =
     (case generate_packing_list_body e n user_id question of
        Inr r \<Rightarrow> r
      | Inl err \<Rightarrow>
          \<lparr>pl_answer = ''An error occurred while generating your packing list: '' @ err
              @ ''. Please try again with more specific trip details.'',
           pl_asins = Map.empty, pl_items = []\<rparr>)"

section \<open>Example environments\<close>

text \<open>
  Concrete provider records and environments, on which the theorems below are
  instantiated. \<open>example_float\<close> reads the few texts the examples use and raises the
  ValueError of \<open>float\<close> on any other text. The repetition of a text raises beyond a
  thousand copies, and a list with a NaN rating is left in its order, as CPython leaves
  the lists of the examples.
\<close>

definition example_record :: "string \<Rightarrow> raw_rating \<Rightarrow> int \<Rightarrow> raw_price \<Rightarrow> raw_product" where
  "example_record a rr n pr =
     \<lparr>raw_asin = (if a = [] then None else Some a), raw_title = Some ''Trail running shoe'',
      raw_link = None, raw_price = pr, raw_rating = rr, raw_reviews = Some n,
      raw_thumbnail = None, raw_delivery = None, raw_prime = Some True,
      raw_sponsored = None\<rparr>"

definition example_float :: "string \<Rightarrow> exn + pyfloat" where
  "example_float s =
     (if s = ''59.99'' then Inr (Fin 59.99)
      else if s = ''4.7'' then Inr (Fin 4.7)
      else if s = ''1234.50'' then Inr (Fin 1234.5)
      else if s = ''nan'' then Inr NaN
      else if s = ''inf'' then Inr PosInf
      else Inl (''could not convert string to float: '' @ quote @ s @ quote))"

definition example_env :: "(nat \<Rightarrow> exn + string) \<Rightarrow> (nat \<Rightarrow> exn + raw_product list option) \<Rightarrow> env" where
  "example_env keys answers =
     \<lparr>get_serpapi_key = keys, google_search = (\<lambda>n params. answers n),
      py_float = example_float, py_float_int = (\<lambda>i. Inr (Fin (of_int i))),
      format_2f = (\<lambda>x. Inr ''0.00''), str_float = (\<lambda>x. ''0.0''),
      repeat_error = (\<lambda>k. if k > 1000 then Some ''repeated string is too long'' else None),
      sort_unordered = identity_sorter\<rparr>"

definition example_results :: "raw_product list" where
  "example_results =
     [example_record ''B001'' (RatingInt 4) 120 (RawPriceStr ''$59.99''),
      example_record ''B002'' (RatingFloat (Fin 3)) 900 PriceAbsent,
      example_record [] (RatingInt 5) 50 PriceAbsent,
      example_record ''B003'' (RatingStr ''4.7'') 15 (RawPriceNum (PyInt 20)),
      example_record ''B004'' (RatingFloat (Fin 4)) 120 (RawPriceStr ''call us''),
      example_record ''B005'' RatingAbsent 0 (RawPriceDict None),
      example_record ''B006'' (RatingFloat (Fin 4)) 300 (RawPriceStr ''USD 1,234.50'')]"

text \<open>The key is there and the provider answers every search with \<open>example_results\<close>.\<close>

definition shop_env :: env where
  "shop_env = example_env (\<lambda>n. Inr ''key'') (\<lambda>n. Inr (Some example_results))"

text \<open>The provider's first answer is an error, the later ones are \<open>example_results\<close>.\<close>

definition flaky_env :: env where
  "flaky_env = example_env (\<lambda>n. Inr ''key'')
                 (\<lambda>n. if n = 0 then Inl ''Connection timed out'' else Inr (Some example_results))"

text \<open>The provider raises on every search.\<close>

definition down_env :: env where
  "down_env = example_env (\<lambda>n. Inr ''key'') (\<lambda>n. Inl ''Connection timed out'')"

text \<open>The secret store has no key.\<close>

definition keyless_env :: env where
  "keyless_env = example_env
     (\<lambda>n. Inl ''SSM parameter not found: /concierge-agent/shopping/serp-api-key'')
     (\<lambda>n. Inr (Some example_results))"

text \<open>The provider answers with one record, whose rating is the number -1.\<close>

definition negative_env :: env where
  "negative_env = example_env (\<lambda>n. Inr ''key'')
     (\<lambda>n. Inr (Some [example_record ''B001'' (RatingInt (- 1)) 7 PriceAbsent]))"

text \<open>The provider answers with four records; the rating of the second is the text "nan".\<close>

definition nan_env :: env where
  "nan_env = example_env (\<lambda>n. Inr ''key'')
     (\<lambda>n. Inr (Some [example_record ''B001'' (RatingFloat (Fin 4)) 10 PriceAbsent,
                      example_record ''B002'' (RatingStr ''nan'') 20 PriceAbsent,
                      example_record ''B003'' (RatingFloat (Fin 5)) 30 PriceAbsent,
                      example_record ''B004'' (RatingFloat (Fin 4.5)) 40 PriceAbsent]))"

text \<open>The products collected from that answer, in the provider's order.\<close>

definition nan_products :: "product list" where
  "nan_products =
     [product_info (example_record ''B001'' (RatingFloat (Fin 4)) 10 PriceAbsent) (PriceText ''N/A'') (Fin 4),
      product_info (example_record ''B002'' (RatingStr ''nan'') 20 PriceAbsent) (PriceText ''N/A'') NaN,
      product_info (example_record ''B003'' (RatingFloat (Fin 5)) 30 PriceAbsent) (PriceText ''N/A'') (Fin 5),
      product_info (example_record ''B004'' (RatingFloat (Fin 4.5)) 40 PriceAbsent) (PriceText ''N/A'') (Fin 4.5)]"

text \<open>The provider answers with one record, whose rating is the text "inf".\<close>

definition inf_env :: env where
  "inf_env = example_env (\<lambda>n. Inr ''key'')
     (\<lambda>n. Inr (Some [example_record ''B001'' (RatingStr ''inf'') 7 PriceAbsent]))"

text \<open>The provider answers with one record, whose price text has no digit.\<close>

definition comma_env :: env where
  "comma_env = example_env (\<lambda>n. Inr ''key'')
     (\<lambda>n. Inr (Some [example_record ''B001'' (RatingInt 4) 7 (RawPriceStr '','')]))"

section \<open>Facts about the string operations\<close>

lemma str_in_sublist: "str_in sub s \<longleftrightarrow> sublist sub s"
  by (induction s) (auto simp: sublist_Cons_right)

lemma str_in_Nil: "str_in [] s"
  by (simp add: str_in_sublist)

lemma str_replace_absent: "\<not> str_in old s \<Longrightarrow> str_replace old new s = s"
proof (induction old new s rule: str_replace.induct)
  case (1 old new)
  then show ?case by auto
next
  case (2 old new c cs)
  from "2.prems" have ne: "old \<noteq> []" using str_in_Nil by auto
  from "2.prems" have np: "\<not> prefix old (c # cs)" and nr: "\<not> str_in old cs" by auto
  from "2.IH"(3)[OF ne np nr] ne np show ?case by simp
qed

lemma sublist_strip: "sublist (strip s) s"
proof -
  have "prefix (rstrip (lstrip s)) (lstrip s)"
    unfolding rstrip_def
    by (metis rev_rev_ident suffix_dropWhile suffix_to_prefix)
  moreover have "suffix (lstrip s) s"
    unfolding lstrip_def by (rule suffix_dropWhile)
  ultimately show ?thesis
    unfolding strip_def
    by (meson prefix_imp_sublist suffix_imp_sublist sublist_order.order_trans)
qed

lemma str_in_strip: "str_in sub (strip s) \<Longrightarrow> str_in sub s"
  unfolding str_in_sublist using sublist_strip sublist_order.order_trans by blast

lemma split_acc_spaces: "\<forall>c \<in> set sp. isspace c \<Longrightarrow> split_acc cur sp = (if cur = [] then [] else [cur])"
  by (induction sp arbitrary: cur) auto

lemma split_acc_append_spaces:
  "\<forall>c \<in> set sp. isspace c \<Longrightarrow> split_acc cur (s @ sp) = split_acc cur s"
  by (induction s arbitrary: cur) (auto simp: split_acc_spaces)

lemma split_acc_lstrip: "split_acc [] (dropWhile isspace s) = split_acc [] s"
  by (induction s) auto

lemma rstrip_decomp: "\<exists>sp. s = rstrip s @ sp \<and> (\<forall>c \<in> set sp. isspace c)"
proof -
  have "rev s = takeWhile isspace (rev s) @ dropWhile isspace (rev s)" by simp
  then have "s = rev (dropWhile isspace (rev s)) @ rev (takeWhile isspace (rev s))"
    by (metis rev_append rev_rev_ident)
  moreover have "\<forall>c \<in> set (rev (takeWhile isspace (rev s))). isspace c"
    by (auto dest: set_takeWhileD)
  ultimately show ?thesis unfolding rstrip_def by blast
qed

lemma split_acc_rstrip: "split_acc cur (rstrip s) = split_acc cur s"
  by (metis rstrip_decomp split_acc_append_spaces)

lemma str_split_strip: "str_split (strip s) = str_split s"
  by (simp add: str_split_def strip_def split_acc_rstrip lstrip_def split_acc_lstrip)

lemma strip_id: "s \<noteq> [] \<Longrightarrow> \<not> isspace (hd s) \<Longrightarrow> \<not> isspace (last s) \<Longrightarrow> strip s = s"
  by (cases s) (auto simp: strip_def lstrip_def rstrip_def last_rev hd_rev dropWhile_eq_self_iff split: if_splits)

lemma remove_fillers_absent:
  "\<forall>f \<in> set fs. \<not> str_in f s \<Longrightarrow>
     sublist (remove_fillers fs s) s \<and> str_split (remove_fillers fs s) = str_split s"
proof (induction fs arbitrary: s)
  case Nil
  then show ?case by simp
next
  case (Cons f fs)
  have r: "str_replace f [] s = s" using Cons.prems by (simp add: str_replace_absent)
  have "\<forall>g \<in> set fs. \<not> str_in g (strip s)" using Cons.prems str_in_strip by auto
  from Cons.IH[OF this] r show ?case
    using sublist_strip str_split_strip sublist_order.order_trans by (metis remove_fillers.simps(2))
qed

lemma apply_improvements_absent:
  "\<forall>kw \<in> set (map fst imps). \<not> str_in kw s \<Longrightarrow> apply_improvements imps s = s"
  by (induction imps s rule: apply_improvements.induct) auto

section \<open>Facts about the regular expressions\<close>

lemma first_down_Some: "first_down f lo d = Some r \<Longrightarrow> \<exists>k. f k = Some r"
  by (induction d) (auto split: option.splits)

lemma rx_here_groups:
  "rx_here p s cur gs = Some r \<Longrightarrow> length r = length gs + count_list p GClose"
proof (induction p arbitrary: s cur gs)
  case Nil
  then show ?case by simp
next
  case (Cons t ts)
  show ?case
  proof (cases t)
    case (One c)
    with Cons show ?thesis by (auto split: list.splits if_splits)
  next
    case (Opt c)
    with Cons.prems obtain k where "rx_here ts (drop k s) (grab cur (take k s)) gs = Some r"
      by (auto dest: first_down_Some)
    from Cons.IH[OF this] Opt show ?thesis by simp
  next
    case (Star c)
    with Cons.prems obtain k where "rx_here ts (drop k s) (grab cur (take k s)) gs = Some r"
      by (auto dest: first_down_Some)
    from Cons.IH[OF this] Star show ?thesis by simp
  next
    case (Plus c)
    with Cons.prems obtain k where "rx_here ts (drop k s) (grab cur (take k s)) gs = Some r"
      by (auto dest: first_down_Some split: if_splits)
    from Cons.IH[OF this] Plus show ?thesis by simp
  next
    case GOpen
    with Cons show ?thesis by auto
  next
    case GClose
    with Cons.prems obtain g where "cur = Some g" "rx_here ts s None (gs @ [g]) = Some r"
      by (auto split: option.splits)
    from Cons.IH[OF this(2)] GClose show ?thesis by simp
  qed
qed

lemma re_search_groups: "re_search p s = Some r \<Longrightarrow> length r = count_list p GClose"
  by (induction s) (auto dest: rx_here_groups split: option.splits)

section \<open>The price range\<close>

lemma one_group: "re_search p s = Some gs \<Longrightarrow> count_list p GClose = 1 \<Longrightarrow> \<exists>g1. gs = [g1]"
  by (drule re_search_groups) (simp add: length_Suc_conv)

lemma two_groups: "re_search p s = Some gs \<Longrightarrow> count_list p GClose = 2 \<Longrightarrow> \<exists>g1 g2. gs = [g1, g2]"
  by (drule re_search_groups) (auto simp: length_Suc_conv numeral_2_eq_2)

lemma price_scan_skip:
  "\<forall>j<i. re_search (snd (ps ! j)) q = None \<Longrightarrow> i \<le> length ps \<Longrightarrow>
     price_scan ps q = price_scan (drop i ps) q"
proof (induction i arbitrary: ps)
  case 0
  then show ?case by simp
next
  case (Suc i)
  then obtain p rest where ps: "ps = p # rest" by (cases ps) auto
  from Suc.prems have "re_search (snd p) q = None" using ps by auto
  moreover have "\<forall>j<i. re_search (snd (rest ! j)) q = None"
    using Suc.prems ps by auto
  moreover have "i \<le> length rest" using Suc.prems ps by simp
  ultimately show ?case using Suc.IH[of rest] ps by (cases p) simp
qed


lemma price_scan_hit:
  assumes "i < length ps" "\<forall>j<i. re_search (snd (ps ! j)) q = None"
    "re_search (snd (ps ! i)) q = Some gs"
  shows "price_scan ps q = price_scan [ps ! i] q"
proof -
  have "price_scan ps q = price_scan (drop i ps) q"
    using assms by (intro price_scan_skip) auto
  also have "drop i ps = ps ! i # drop (Suc i) ps"
    using assms(1) by (simp add: Cons_nth_drop_Suc)
  finally show ?thesis using assms(3) by (cases "ps ! i") simp
qed

lemma price_scan_upper:
  "re_search toks q = Some [g1] \<Longrightarrow> upper_bound_pattern src \<Longrightarrow>
   price_scan [(src, toks)] q = Inr (None, Some (int_of_digits g1))"
  by (simp add: group_def)

lemma price_scan_range:
  "re_search toks q = Some [g1, g2] \<Longrightarrow> \<not> upper_bound_pattern src \<Longrightarrow>
   price_scan [(src, toks)] q = Inr (Some (int_of_digits g1), Some (int_of_digits g2))"
  by (simp add: group_def)

lemma nth_price_patterns_upper:
  assumes "i < 3"
  shows "count_list (snd (price_patterns ! i)) GClose = 1 \<and> upper_bound_pattern (fst (price_patterns ! i))"
proof -
  have p0: "count_list (snd (price_patterns ! 0)) GClose = 1 \<and> upper_bound_pattern (fst (price_patterns ! 0))"
    by code_simp
  have p1: "count_list (snd (price_patterns ! 1)) GClose = 1 \<and> upper_bound_pattern (fst (price_patterns ! 1))"
    by code_simp
  have p2: "count_list (snd (price_patterns ! 2)) GClose = 1 \<and> upper_bound_pattern (fst (price_patterns ! 2))"
    by code_simp
  have "i = 0 \<or> i = 1 \<or> i = 2" using assms by arith
  then show ?thesis using p0 p1 p2 by blast
qed

lemma nth_price_patterns_range:
  assumes "3 \<le> i" "i < 6"
  shows "count_list (snd (price_patterns ! i)) GClose = 2 \<and> \<not> upper_bound_pattern (fst (price_patterns ! i))"
proof -
  have p3: "count_list (snd (price_patterns ! 3)) GClose = 2 \<and> \<not> upper_bound_pattern (fst (price_patterns ! 3))"
    by code_simp
  have p4: "count_list (snd (price_patterns ! 4)) GClose = 2 \<and> \<not> upper_bound_pattern (fst (price_patterns ! 4))"
    by code_simp
  have p5: "count_list (snd (price_patterns ! 5)) GClose = 2 \<and> \<not> upper_bound_pattern (fst (price_patterns ! 5))"
    by code_simp
  have "i = 3 \<or> i = 4 \<or> i = 5" using assms by arith
  then show ?thesis using p3 p4 p5 by blast
qed


lemma price_scan_total:
  "list_all (\<lambda>p. count_list (snd p) GClose = (if upper_bound_pattern (fst p) then 1 else 2)) ps
   \<Longrightarrow> \<exists>r. price_scan ps q = Inr r"
proof (induction ps)
  case Nil
  then show ?case by simp
next
  case (Cons p ps)
  obtain src toks where p: "p = (src, toks)" by (cases p)
  show ?case
  proof (cases "re_search toks q")
    case None
    with Cons p show ?thesis by simp
  next
    case (Some gs)
    from re_search_groups[OF Some] Cons.prems p
    have "length gs = (if upper_bound_pattern src then 1 else 2)" by simp
    with Some p show ?thesis by (simp add: group_def)
  qed
qed

lemma price_patterns_groups:
  "list_all (\<lambda>p. count_list (snd p) GClose = (if upper_bound_pattern (fst p) then 1 else 2))
     price_patterns"
  by code_simp

text \<open>The groups that \<open>price_scan\<close> reads are there: \<open>extract_price_range\<close> never raises.\<close>

lemma extract_price_range_total: "\<exists>r. extract_price_range query = Inr r"
  unfolding extract_price_range_def by (rule price_scan_total[OF price_patterns_groups])

text \<open>
  Claim C5. \<open>extract_price_range\<close> gives \<open>(None, 50)\<close> on "under $50", \<open>(20, 100)\<close> on
  "$20-$100" and \<open>(None, None)\<close> on "nice shoes". In general the first pattern of the
  list, in its order, that matches the lower-cased query decides the result alone: when
  it is one of the three "under", "below", "less than" patterns it has one group
  \<open>N\<close> and the result is \<open>(None, N)\<close>; when it is one of the three range patterns
  it has two groups \<open>A\<close>, \<open>B\<close> and the result is \<open>(A, B)\<close> as written; when no
  pattern matches the result is \<open>(None, None)\<close>.
\<close>

theorem extract_price_range_first_match:
  "extract_price_range ''under $50'' = Inr (None, Some 50) \<and>
   extract_price_range ''$20-$100'' = Inr (Some 20, Some 100) \<and>
   extract_price_range ''nice shoes'' = Inr (None, None) \<and>
   (\<forall>i gs. i < 6 \<and> (\<forall>j<i. re_search (snd (price_patterns ! j)) (str_lower query) = None) \<and>
        re_search (snd (price_patterns ! i)) (str_lower query) = Some gs \<longrightarrow>
      (if i < 3
       then \<exists>g1. gs = [g1] \<and> extract_price_range query = Inr (None, Some (int_of_digits g1))
       else \<exists>g1 g2. gs = [g1, g2] \<and>
              extract_price_range query = Inr (Some (int_of_digits g1), Some (int_of_digits g2)))) \<and>
   ((\<forall>j<6. re_search (snd (price_patterns ! j)) (str_lower query) = None) \<longrightarrow>
      extract_price_range query = Inr (None, None))"
proof -
  have c1: "extract_price_range ''under $50'' = Inr (None, Some 50)" by code_simp
  have c2: "extract_price_range ''$20-$100'' = Inr (Some 20, Some 100)" by code_simp
  have c3: "extract_price_range ''nice shoes'' = Inr (None, None)" by code_simp
  have len: "length price_patterns = 6" by (simp add: price_patterns_def)
  have hit: "if i < 3
       then \<exists>g1. gs = [g1] \<and> extract_price_range query = Inr (None, Some (int_of_digits g1))
       else \<exists>g1 g2. gs = [g1, g2] \<and>
              extract_price_range query = Inr (Some (int_of_digits g1), Some (int_of_digits g2))"
    if a: "i < 6" "\<forall>j<i. re_search (snd (price_patterns ! j)) (str_lower query) = None"
        "re_search (snd (price_patterns ! i)) (str_lower query) = Some gs" for i gs
  proof -
    have h: "price_scan price_patterns (str_lower query) = price_scan [price_patterns ! i] (str_lower query)"
      using a len by (intro price_scan_hit[where gs = gs]) auto
    obtain src toks where p: "price_patterns ! i = (src, toks)" by (cases "price_patterns ! i")
    have m: "re_search toks (str_lower query) = Some gs" using a(3) p by simp
    show ?thesis
    proof (cases "i < 3")
      case True
      from nth_price_patterns_upper[OF True] p
      have k: "count_list toks GClose = 1" "upper_bound_pattern src" by simp_all
      from one_group[OF m k(1)] obtain g1 where g: "gs = [g1]" by blast
      from price_scan_upper[OF m[unfolded g] k(2)] h p g True
      show ?thesis by (simp add: extract_price_range_def)
    next
      case False
      then have r: "3 \<le> i" by simp
      from nth_price_patterns_range[OF r a(1)] p
      have k: "count_list toks GClose = 2" "\<not> upper_bound_pattern src" by simp_all
      from two_groups[OF m k(1)] obtain g1 g2 where g: "gs = [g1, g2]" by blast
      from price_scan_range[OF m[unfolded g] k(2)] h p g False
      show ?thesis by (simp add: extract_price_range_def)
    qed
  qed
  have miss: "extract_price_range query = Inr (None, None)"
    if "\<forall>j<6. re_search (snd (price_patterns ! j)) (str_lower query) = None"
  proof -
    have "price_scan price_patterns (str_lower query) = price_scan (drop 6 price_patterns) (str_lower query)"
      using that len by (intro price_scan_skip) auto
    then show ?thesis using len by (simp add: extract_price_range_def)
  qed
  from c1 c2 c3 hit miss show ?thesis by blast
qed

theorem extract_price_range_first_match_witness:
  "re_search (snd (price_patterns ! 0)) (str_lower ''Boots $20 - $100 or UNDER 75'') = Some [''75'']
   \<and> extract_price_range ''Boots $20 - $100 or UNDER 75'' = Inr (None, Some 75)
   \<and> re_search (snd (price_patterns ! 0)) (str_lower ''Boots $20 - $100'') = None
   \<and> re_search (snd (price_patterns ! 1)) (str_lower ''Boots $20 - $100'') = None
   \<and> re_search (snd (price_patterns ! 2)) (str_lower ''Boots $20 - $100'') = None
   \<and> re_search (snd (price_patterns ! 3)) (str_lower ''Boots $20 - $100'') = Some [''20'', ''100'']
   \<and> extract_price_range ''Boots $20 - $100'' = Inr (Some 20, Some 100)"
proof -
  have a0: "re_search (snd (price_patterns ! 0)) (str_lower ''Boots $20 - $100 or UNDER 75'') = Some [''75'']"
    by code_simp
  have b0: "re_search (snd (price_patterns ! 0)) (str_lower ''Boots $20 - $100'') = None" by code_simp
  have b1: "re_search (snd (price_patterns ! 1)) (str_lower ''Boots $20 - $100'') = None" by code_simp
  have b2: "re_search (snd (price_patterns ! 2)) (str_lower ''Boots $20 - $100'') = None" by code_simp
  have b3: "re_search (snd (price_patterns ! 3)) (str_lower ''Boots $20 - $100'') = Some [''20'', ''100'']"
    by code_simp
  have d75: "int_of_digits ''75'' = 75" and d20: "int_of_digits ''20'' = 20"
    and d100: "int_of_digits ''100'' = 100" by code_simp+
  have bs: "\<forall>j<3. re_search (snd (price_patterns ! j)) (str_lower ''Boots $20 - $100'') = None"
  proof (intro allI impI)
    fix j :: nat assume "j < 3"
    then have "j = 0 \<or> j = 1 \<or> j = 2" by arith
    then show "re_search (snd (price_patterns ! j)) (str_lower ''Boots $20 - $100'') = None"
      using b0 b1 b2 by blast
  qed
  note t1 = extract_price_range_first_match[of "''Boots $20 - $100 or UNDER 75''"]
  note h1 = conjunct1[OF conjunct2[OF conjunct2[OF conjunct2[OF t1]]]]
  have "\<exists>g1. [''75''] = [g1] \<and>
          extract_price_range ''Boots $20 - $100 or UNDER 75'' = Inr (None, Some (int_of_digits g1))"
    using h1[rule_format, of 0 "[''75'']"] a0 by simp
  then have u: "extract_price_range ''Boots $20 - $100 or UNDER 75'' = Inr (None, Some 75)"
    using d75 by auto
  note t2 = extract_price_range_first_match[of "''Boots $20 - $100''"]
  note h2 = conjunct1[OF conjunct2[OF conjunct2[OF conjunct2[OF t2]]]]
  have "\<exists>g1 g2. [''20'', ''100''] = [g1, g2] \<and>
          extract_price_range ''Boots $20 - $100'' = Inr (Some (int_of_digits g1), Some (int_of_digits g2))"
    using h2[rule_format, of 3 "[''20'', ''100'']"] bs b3 by simp
  then have r: "extract_price_range ''Boots $20 - $100'' = Inr (Some 20, Some 100)"
    using d20 d100 by auto
  from a0 b0 b1 b2 b3 u r show ?thesis by blast
qed

section \<open>The keys of a dictionary\<close>

lemma dict_fromkeys_acc:
  "distinct acc \<Longrightarrow>
     distinct (foldl (\<lambda>keys x. if x \<in> set keys then keys else keys @ [x]) acc xs) \<and>
     set (foldl (\<lambda>keys x. if x \<in> set keys then keys else keys @ [x]) acc xs) = set acc \<union> set xs"
  by (induction xs arbitrary: acc) auto

lemma dict_fromkeys_distinct_id:
  "distinct (acc @ xs) \<Longrightarrow> foldl (\<lambda>keys x. if x \<in> set keys then keys else keys @ [x]) acc xs = acc @ xs"
  by (induction xs arbitrary: acc) auto

lemma dict_fromkeys_distinct: "distinct (dict_fromkeys xs) \<and> set (dict_fromkeys xs) = set xs"
  unfolding dict_fromkeys_def using dict_fromkeys_acc[of "[]" xs] by simp

lemma dict_fromkeys_prefix:
  "prefix acc (foldl (\<lambda>keys x. if x \<in> set keys then keys else keys @ [x]) acc xs)"
proof (induction xs arbitrary: acc)
  case Nil
  then show ?case by simp
next
  case (Cons x xs)
  have "prefix acc (if x \<in> set acc then acc else acc @ [x])" by simp
  moreover note Cons[of "if x \<in> set acc then acc else acc @ [x]"]
  ultimately have "prefix acc (foldl (\<lambda>keys x. if x \<in> set keys then keys else keys @ [x])
                                (if x \<in> set acc then acc else acc @ [x]) xs)"
    by (rule prefix_order.order_trans)
  then show ?case by simp
qed

lemma dict_fromkeys_append_distinct:
  "distinct xs \<Longrightarrow> prefix xs (dict_fromkeys (xs @ ys))"
  using dict_fromkeys_distinct_id[of "[]" xs] dict_fromkeys_prefix[of xs ys]
  by (simp add: dict_fromkeys_def)

section \<open>Query normalisation: the filler phrases\<close>

lemma any_in_set: "any_in ws s \<longleftrightarrow> (\<exists>w \<in> set ws. str_in w s)"
  by (simp add: any_in_def list_ex_iff)

text \<open>
  Claim C6, as stated, fails: the code removes seven filler phrases, the six of the claim
  and "i want". The query "i want shoes" contains none of the six phrases and no
  expansion keyword, and its lower-cased, whitespace-collapsed text is "i want shoes",
  but \<open>optimize_search_query\<close> returns "shoes".
\<close>

theorem optimize_search_query_i_want_counterexample:
  "\<not> any_in [''i need'', ''looking for'', ''find me'', ''search for'', ''show me'', ''get me'']
        (str_lower ''i want shoes'')
   \<and> \<not> any_in (map fst improvements) (str_lower ''i want shoes'')
   \<and> str_join '' '' (str_split (str_lower ''i want shoes'')) = ''i want shoes''
   \<and> optimize_search_query ''i want shoes'' = ''shoes''"
  by code_simp

text \<open>
  Claim C6, amended. \<open>optimize_search_query\<close> removes the seven phrases "i need",
  "i want", "looking for", "find me", "search for", "show me", "get me": for every
  query whose lower-casing contains none of the seven and no expansion keyword of the
  table, it returns the lower-cased query with its whitespace collapsed to single spaces
  and trimmed.
\<close>

theorem optimize_search_query_without_fillers:
  assumes "\<not> any_in [''i need'', ''i want'', ''looking for'', ''find me'', ''search for'',
                      ''show me'', ''get me''] (str_lower query)"
    and "\<not> any_in [''hiking'', ''travel'', ''beach'', ''winter'', ''workout'', ''office'',
                    ''kitchen'', ''phone'', ''laptop'', ''camera''] (str_lower query)"
  shows "optimize_search_query query = str_join '' '' (str_split (str_lower query))"
proof -
  let ?q = "str_lower query"
  have f: "\<forall>f \<in> set filler_words. \<not> str_in f ?q"
    using assms(1) by (simp add: any_in_set filler_words_def)
  note r = remove_fillers_absent[OF f]
  have kws: "map fst improvements = [''hiking'', ''travel'', ''beach'', ''winter'', ''workout'',
      ''office'', ''kitchen'', ''phone'', ''laptop'', ''camera'']"
    by (simp add: improvements_def)
  have "\<forall>kw \<in> set (map fst improvements). \<not> str_in kw ?q"
    using assms(2) unfolding kws by (simp add: any_in_set)
  then have "\<forall>kw \<in> set (map fst improvements). \<not> str_in kw (remove_fillers filler_words ?q)"
    using r unfolding str_in_sublist by (meson sublist_order.order_trans)
  then have "apply_improvements improvements (remove_fillers filler_words ?q)
               = remove_fillers filler_words ?q"
    by (rule apply_improvements_absent)
  then show ?thesis using r by (simp add: optimize_search_query_def)
qed

theorem optimize_search_query_without_fillers_witness:
  "\<not> any_in [''i need'', ''i want'', ''looking for'', ''find me'', ''search for'',
                      ''show me'', ''get me''] (str_lower '' Red   Running Shoes '')
   \<and> \<not> any_in [''hiking'', ''travel'', ''beach'', ''winter'', ''workout'', ''office'',
                    ''kitchen'', ''phone'', ''laptop'', ''camera''] (str_lower '' Red   Running Shoes '')
   \<and> optimize_search_query '' Red   Running Shoes '' = ''red running shoes''"
proof -
  have a: "\<not> any_in [''i need'', ''i want'', ''looking for'', ''find me'', ''search for'',
                      ''show me'', ''get me''] (str_lower '' Red   Running Shoes '')"
    by code_simp
  have b: "\<not> any_in [''hiking'', ''travel'', ''beach'', ''winter'', ''workout'', ''office'',
                    ''kitchen'', ''phone'', ''laptop'', ''camera''] (str_lower '' Red   Running Shoes '')"
    by code_simp
  have c: "str_join '' '' (str_split (str_lower '' Red   Running Shoes '')) = ''red running shoes''"
    by code_simp
  from optimize_search_query_without_fillers[OF a b] a b c show ?thesis by simp
qed

section \<open>The smart packing list\<close>

text \<open>
  The test on "week" comes first and every text that contains "weekend" contains
  "week": the keyword "weekend" of the \<open>elif\<close> can never select the short-trip items.
\<close>

lemma weekend_keyword_shadowed:
  "str_in ''weekend'' q \<Longrightarrow> duration_items q = long_trip_items"
proof -
  assume "str_in ''weekend'' q"
  moreover have "sublist ''week'' ''weekend''" by (simp add: sublist_code)
  ultimately have "str_in ''week'' q"
    unfolding str_in_sublist by (meson sublist_order.order_trans)
  then show ?thesis by (simp add: duration_items_def any_in_def)
qed

text \<open>
  So the description "weekend getaway", whose lower-casing contains the short-trip
  keyword "weekend" and neither "7 day" nor "long trip", gets the base items and
  the three long-trip items, and no short-trip item.
\<close>

lemma weekend_gets_long_trip_items:
  "any_in [''weekend'', ''2 day'', ''3 day'', ''short trip''] (str_lower ''weekend getaway'')
   \<and> \<not> str_in ''7 day'' (str_lower ''weekend getaway'')
   \<and> \<not> str_in ''long trip'' (str_lower ''weekend getaway'')
   \<and> generate_smart_packing_list ''weekend getaway'' =
       [''travel backpack'', ''phone charger'', ''toiletry bag'', ''travel adapter'',
        ''laundry detergent pods'', ''extra underwear'', ''medication organizer'']"
  by code_simp

text \<open>The smart packing list never holds an entry twice.\<close>

lemma generate_smart_packing_list_distinct:
  "distinct (generate_smart_packing_list question)"
  unfolding generate_smart_packing_list_def Let_def by (rule conjunct1[OF dict_fromkeys_distinct])

lemma climate_scan_items:
  "set (climate_scan tbl q) \<subseteq> set (concat (map snd tbl))"
  by (induction tbl q rule: climate_scan.induct) auto

lemma activity_scan_items:
  "set (activity_scan tbl q) \<subseteq> set (concat (map snd tbl))"
  by (induction tbl q rule: activity_scan.induct) auto

lemma long_trip_items_elsewhere:
  "list_all (\<lambda>x. x \<notin> set long_trip_items)
     (base_items @ short_trip_items @ concat (map snd climate_items) @ concat (map snd activities))"
  by code_simp

lemma base_short_distinct: "distinct (base_items @ short_trip_items)"
  by code_simp

text \<open>
  Claim C7, amended. One duration branch at most applies, and the keyword lists select
  it with the long-trip keywords tested first: for every trip description whose
  lower-casing contains a short-trip keyword ("weekend", "2 day", "3 day" or "short
  trip") and contains none of "week", "7 day" and "long trip", the short-trip items
  are appended after the base items and no long-trip item is in the list.
\<close>

theorem short_trip_branch:
  assumes "any_in [''weekend'', ''2 day'', ''3 day'', ''short trip''] (str_lower question)"
    and "\<not> any_in [''week'', ''7 day'', ''long trip''] (str_lower question)"
  shows "duration_items (str_lower question) = short_trip_items \<and>
         prefix (base_items @ short_trip_items) (generate_smart_packing_list question) \<and>
         set short_trip_items \<subseteq> set (generate_smart_packing_list question) \<and>
         set long_trip_items \<inter> set (generate_smart_packing_list question) = {}"
proof -
  let ?q = "str_lower question"
  let ?rest = "climate_scan climate_items ?q @ activity_scan activities ?q"
  have d: "duration_items ?q = short_trip_items"
    using assms by (simp add: duration_items_def)
  then have g: "generate_smart_packing_list question
                  = dict_fromkeys ((base_items @ short_trip_items) @ ?rest)"
    by (simp add: generate_smart_packing_list_def Let_def)
  have p: "prefix (base_items @ short_trip_items) (generate_smart_packing_list question)"
    unfolding g by (rule dict_fromkeys_append_distinct[OF base_short_distinct])
  from set_mono_prefix[OF p]
  have s: "set short_trip_items \<subseteq> set (generate_smart_packing_list question)"
    by simp
  have "set (generate_smart_packing_list question)
          = set base_items \<union> set short_trip_items \<union> set ?rest"
    unfolding g using dict_fromkeys_distinct[of "(base_items @ short_trip_items) @ ?rest"]
    by (simp only: set_append)
  also have "\<dots> \<subseteq> set (base_items @ short_trip_items @ concat (map snd climate_items)
                        @ concat (map snd activities))"
    using climate_scan_items[of climate_items ?q] activity_scan_items[of activities ?q]
    by (auto simp only: set_append)
  finally have "set (generate_smart_packing_list question)
          \<subseteq> set (base_items @ short_trip_items @ concat (map snd climate_items)
                        @ concat (map snd activities))" .
  with long_trip_items_elsewhere
  have l: "set long_trip_items \<inter> set (generate_smart_packing_list question) = {}"
    unfolding list_all_iff by blast
  from d p s l show ?thesis by blast
qed

theorem short_trip_branch_witness:
  "any_in [''weekend'', ''2 day'', ''3 day'', ''short trip''] (str_lower ''Short trip to the city'')
   \<and> \<not> any_in [''week'', ''7 day'', ''long trip''] (str_lower ''Short trip to the city'')
   \<and> duration_items (str_lower ''Short trip to the city'') = short_trip_items
   \<and> prefix (base_items @ short_trip_items) (generate_smart_packing_list ''Short trip to the city'')
   \<and> set long_trip_items \<inter> set (generate_smart_packing_list ''Short trip to the city'') = {}"
proof -
  have a: "any_in [''weekend'', ''2 day'', ''3 day'', ''short trip''] (str_lower ''Short trip to the city'')"
    by code_simp
  have b: "\<not> any_in [''week'', ''7 day'', ''long trip''] (str_lower ''Short trip to the city'')"
    by code_simp
  from short_trip_branch[OF a b] a b show ?thesis by blast
qed

text \<open>
  Claim C7, as stated, fails: "week" is a long-trip keyword too, and the long-trip
  keywords are tested first. The description "3 day trip next week" contains the
  short-trip keyword "3 day" and neither "7 day" nor "long trip", and the list returned
  holds the base items and the three long-trip items, and no short-trip item.
\<close>

theorem week_after_short_keyword_counterexample:
  "any_in [''weekend'', ''2 day'', ''3 day'', ''short trip''] (str_lower ''3 day trip next week'')
   \<and> \<not> str_in ''7 day'' (str_lower ''3 day trip next week'')
   \<and> \<not> str_in ''long trip'' (str_lower ''3 day trip next week'')
   \<and> generate_smart_packing_list ''3 day trip next week'' =
       [''travel backpack'', ''phone charger'', ''toiletry bag'', ''travel adapter'',
        ''laundry detergent pods'', ''extra underwear'', ''medication organizer'']"
  by code_simp

text \<open>
  Claim C8. \<open>generate_smart_packing_list\<close> on "beach vacation for a week" returns the
  four base items, the three week-duration items and the five beach items, in this order
  of generation; the climate scan yields the beach items only, no activity applies, and
  no entry occurs twice.
\<close>

theorem smart_packing_list_beach_week:
  "generate_smart_packing_list ''beach vacation for a week'' =
     [''travel backpack'', ''phone charger'', ''toiletry bag'', ''travel adapter'',
      ''laundry detergent pods'', ''extra underwear'', ''medication organizer'',
      ''swimsuit'', ''beach towel'', ''waterproof phone case'', ''flip flops'', ''beach bag'']
   \<and> duration_items (str_lower ''beach vacation for a week'') =
       [''laundry detergent pods'', ''extra underwear'', ''medication organizer'']
   \<and> climate_scan climate_items (str_lower ''beach vacation for a week'') =
       [''swimsuit'', ''beach towel'', ''waterproof phone case'', ''flip flops'', ''beach bag'']
   \<and> activity_scan activities (str_lower ''beach vacation for a week'') = []
   \<and> distinct (generate_smart_packing_list ''beach vacation for a week'')"
  by code_simp

section \<open>The provider client: what is retained\<close>

lemma collect_products_inv:
  "collect_products e min_rating max_results raws acc = Inr ps \<Longrightarrow>
   \<forall>p \<in> set acc. asin p \<noteq> [] \<and>
      \<not> (float_lt (Fin 0) (rating p) \<and> float_lt (rating p) (Fin min_rating)) \<Longrightarrow>
   \<forall>p \<in> set ps. asin p \<noteq> [] \<and>
      \<not> (float_lt (Fin 0) (rating p) \<and> float_lt (rating p) (Fin min_rating))"
proof (induction raws arbitrary: acc)
  case Nil
  then show ?case by simp
next
  case (Cons raw rest)
  from Cons.prems(1) obtain rt where rt: "rating_of e (raw_rating raw) = Inr rt"
    by (cases "rating_of e (raw_rating raw)") simp_all
  show ?case
  proof (cases "float_lt (Fin 0) rt \<and> float_lt rt (Fin min_rating)")
    case True
    with Cons.prems(1) rt have "collect_products e min_rating max_results rest acc = Inr ps"
      by simp
    from Cons.IH[OF this Cons.prems(2)] show ?thesis .
  next
    case False
    with Cons.prems(1) rt obtain pv where pv: "price_of e (raw_price raw) = Inr pv"
      by (cases "price_of e (raw_price raw)") simp_all
    let ?info = "product_info raw pv rt"
    let ?acc = "if asin ?info \<noteq> [] then acc @ [?info] else acc"
    have r: "rating ?info = rt" by (simp add: product_info_def)
    have inv: "\<forall>p \<in> set ?acc. asin p \<noteq> [] \<and>
        \<not> (float_lt (Fin 0) (rating p) \<and> float_lt (rating p) (Fin min_rating))"
    proof (cases "asin ?info \<noteq> []")
      case True
      with False r Cons.prems(2) show ?thesis by auto
    next
      case no: False
      with Cons.prems(2) show ?thesis by simp
    qed
    show ?thesis
    proof (cases "int (length ?acc) \<ge> max_results")
      case True
      with Cons.prems(1) False pv rt have e: "ps = ?acc" by (simp add: Let_def)
      show ?thesis unfolding e by (rule inv)
    next
      case stop: False
      with Cons.prems(1) False pv rt
      have "collect_products e min_rating max_results rest ?acc = Inr ps" by (simp add: Let_def)
      from Cons.IH[OF this inv] show ?thesis .
    qed
  qed
qed

lemma collect_products_qualifying:
  assumes "collect_products e min_rating max_results raws [] = Inr ps" "p \<in> set ps"
  shows "asin p \<noteq> [] \<and> \<not> (float_lt (Fin 0) (rating p) \<and> float_lt (rating p) (Fin min_rating))"
  using collect_products_inv[OF assms(1)] assms(2) by simp

lemma collected_loop:
  "collected e n query max_results min_rating = Inr ps \<Longrightarrow>
   \<exists>raws. collect_products e min_rating max_results raws [] = Inr ps"
  by (auto simp: collected_def Let_def split: sum.splits prod.splits)

lemma mset_sort_reverse: "mset (sort_reverse e ps) = mset ps"
  using Rep_sorter[of "sort_unordered e"] by (simp add: sort_reverse_def)

lemma set_sort_reverse: "set (sort_reverse e ps) = set ps"
  using mset_sort_reverse[of e ps] by (metis set_mset_mset)

lemma length_sort_reverse: "length (sort_reverse e ps) = length ps"
  using mset_sort_reverse[of e ps] by (metis size_mset)

lemma search_amazon_products_cases:
  "(\<exists>ps. collected e n query max_results min_rating = Inr ps \<and>
      search_amazon_products e n query max_results min_rating =
        \<lparr>success = True, error = None, products = sort_reverse e ps,
         total_results = length (sort_reverse e ps)\<rparr>) \<or>
   (\<exists>err. collected e n query max_results min_rating = Inl err \<and>
      search_amazon_products e n query max_results min_rating =
        \<lparr>success = False, error = Some err, products = [], total_results = 0\<rparr>)"
  by (cases "collected e n query max_results min_rating")
     (simp_all add: search_amazon_products_def Let_def)

lemma products_qualifying:
  assumes "p \<in> set (products (search_amazon_products e n query max_results min_rating))"
  shows "asin p \<noteq> [] \<and> \<not> (float_lt (Fin 0) (rating p) \<and> float_lt (rating p) (Fin min_rating))"
proof -
  from search_amazon_products_cases[of e n query max_results min_rating] assms
  obtain ps where c: "collected e n query max_results min_rating = Inr ps" and "p \<in> set ps"
    by (auto simp: set_sort_reverse)
  from collected_loop[OF c] obtain raws where
    "collect_products e min_rating max_results raws [] = Inr ps" by blast
  from collect_products_qualifying[OF this \<open>p \<in> set ps\<close>] show ?thesis .
qed

lemma identity_sorter_rep: "Rep_sorter identity_sorter ps = ps"
  by (simp add: identity_sorter_def Abs_sorter_inverse)

lemma example_env_sorter: "sort_unordered (example_env keys answers) = identity_sorter"
  by (simp add: example_env_def)


text \<open>
  Claim C1, at two answers of the provider. A record with the identifier B001 and the
  rating -1 is retained, by \<open>search_amazon_products\<close> and so by \<open>search_products\<close>: its
  rating is not 0 and not at least 3.5, the minimum. A record whose rating is the text
  "nan" is retained as well: its rating is NaN, which is not 0 and not at least 3.5.
\<close>

theorem ratings_below_minimum_retained:
  "success (search_amazon_products negative_env 0 ''running shoes'' 15 3.5)
   \<and> map (\<lambda>p. (asin p, rating p))
        (products (search_amazon_products negative_env 0 ''running shoes'' 15 3.5))
       = [(''B001'', Fin (- 1))]
   \<and> map (\<lambda>p. (asin p, rating p))
        (sp_products (search_products negative_env 0 ''user-1'' ''running shoes''))
       = [(''B001'', Fin (- 1))]
   \<and> Fin (- 1) \<noteq> Fin 0 \<and> \<not> float_ge (Fin (- 1)) (Fin 3.5)
   \<and> map_sum id (map (\<lambda>p. (asin p, rating p))) (collected nan_env 0 ''running shoes'' 15 3.5)
       = Inr [(''B001'', Fin 4), (''B002'', NaN), (''B003'', Fin 5), (''B004'', Fin 4.5)]
   \<and> NaN \<noteq> Fin 0 \<and> \<not> float_ge NaN (Fin 3.5)"
proof -
  have a: "success (search_amazon_products negative_env 0 ''running shoes'' 15 3.5)"
    by code_simp
  have b: "map (\<lambda>p. (asin p, rating p))
        (products (search_amazon_products negative_env 0 ''running shoes'' 15 3.5))
       = [(''B001'', Fin (- 1))]"
    by code_simp
  have c: "map (\<lambda>p. (asin p, rating p))
        (sp_products (search_products negative_env 0 ''user-1'' ''running shoes''))
       = [(''B001'', Fin (- 1))]"
    by code_simp
  have d1: "Fin (- 1) \<noteq> Fin 0" by simp
  have d2: "\<not> float_ge (Fin (- 1)) (Fin 3.5)" by (simp add: float_ge_def)
  have f: "map_sum id (map (\<lambda>p. (asin p, rating p))) (collected nan_env 0 ''running shoes'' 15 3.5)
       = Inr [(''B001'', Fin 4), (''B002'', NaN), (''B003'', Fin 5), (''B004'', Fin 4.5)]"
    by code_simp
  have g1: "NaN \<noteq> Fin 0" by simp
  have g2: "\<not> float_ge NaN (Fin 3.5)" by (simp add: float_ge_def)
  show ?thesis
    by (rule conjI[OF a conjI[OF b conjI[OF c conjI[OF d1 conjI[OF d2 conjI[OF f conjI[OF g1 g2]]]]]]])
qed


section \<open>The provider client: the order of the result\<close>

lemma float_rank_lt:
  "a \<noteq> NaN \<Longrightarrow> b \<noteq> NaN \<Longrightarrow> float_rank a < float_rank b \<longleftrightarrow> float_lt a b"
  by (cases a; cases b) (simp_all add: less_prod_def)

lemma float_rank_eq:
  "a \<noteq> NaN \<Longrightarrow> b \<noteq> NaN \<Longrightarrow> float_rank a = float_rank b \<longleftrightarrow> a = b"
  by (cases a; cases b) simp_all

text \<open>
  Without a NaN rating the sort does what the code wants of it: the result is in
  non-increasing order of (rating, review count), compared lexicographically, and the
  products with equal keys keep their order.
\<close>

lemma sort_reverse_sorted:
  assumes "\<not> list_ex (\<lambda>p. rating p = NaN) ps"
  shows "sorted_wrt (\<lambda>a b. float_lt (rating b) (rating a) \<or>
                           (rating a = rating b \<and> reviews b \<le> reviews a))
           (sort_reverse e ps)"
proof -
  have s: "sort_reverse e ps = rev (sort_key sort_key_of (rev ps))"
    using assms by (simp add: sort_reverse_def)
  have "sorted (map sort_key_of (sort_key sort_key_of (rev ps)))" by simp
  then have "sorted_wrt (\<lambda>a b. sort_key_of a \<le> sort_key_of b) (sort_key sort_key_of (rev ps))"
    by (simp add: sorted_map)
  then have o: "sorted_wrt (\<lambda>a b. sort_key_of b \<le> sort_key_of a) (sort_reverse e ps)"
    by (simp add: s sorted_wrt_rev)
  have n: "rating p \<noteq> NaN" if "p \<in> set (sort_reverse e ps)" for p
    using that assms by (auto simp: s list_ex_iff)
  show ?thesis
  proof (rule sorted_wrt_mono_rel[OF _ o])
    fix a b
    assume "a \<in> set (sort_reverse e ps)" "b \<in> set (sort_reverse e ps)"
      and le: "sort_key_of b \<le> sort_key_of a"
    then have na: "rating a \<noteq> NaN" and nb: "rating b \<noteq> NaN" using n by auto
    from le have "float_rank (rating b) < float_rank (rating a) \<or>
        (float_rank (rating b) \<le> float_rank (rating a) \<and> reviews b \<le> reviews a)"
      unfolding sort_key_of_def by (simp only: less_eq_prod_simp)
    then have "float_rank (rating b) < float_rank (rating a) \<or>
        (float_rank (rating b) = float_rank (rating a) \<and> reviews b \<le> reviews a)"
      using le_less by blast
    then show "float_lt (rating b) (rating a) \<or> (rating a = rating b \<and> reviews b \<le> reviews a)"
      using float_rank_lt[OF nb na] float_rank_eq[OF nb na] by auto
  qed
qed

lemma sort_reverse_stable:
  assumes "\<not> list_ex (\<lambda>p. rating p = NaN) ps"
  shows "filter (\<lambda>p. rating p = rt \<and> reviews p = rv) (sort_reverse e ps)
           = filter (\<lambda>p. rating p = rt \<and> reviews p = rv) ps"
proof (cases "rt = NaN")
  case True
  have "filter (\<lambda>p. rating p = rt \<and> reviews p = rv) xs = []" if "set xs = set ps" for xs
    using that assms True by (auto simp: list_ex_iff filter_empty_conv)
  from this[OF set_sort_reverse] this[OF refl] show ?thesis by simp
next
  case False
  have s: "sort_reverse e ps = rev (sort_key sort_key_of (rev ps))"
    using assms by (simp add: sort_reverse_def)
  let ?k = "(float_rank rt, rv)"
  have k: "filter (\<lambda>p. sort_key_of p = ?k) xs = filter (\<lambda>p. rating p = rt \<and> reviews p = rv) xs"
    if "set xs = set ps" for xs
  proof (rule filter_cong[OF refl])
    fix p assume "p \<in> set xs"
    then have "rating p \<noteq> NaN" using that assms by (auto simp: list_ex_iff)
    from float_rank_eq[OF this False]
    show "(sort_key_of p = ?k) = (rating p = rt \<and> reviews p = rv)"
      by (auto simp: sort_key_of_def)
  qed
  have "filter (\<lambda>p. sort_key_of p = ?k) (sort_reverse e ps)
          = rev (filter (\<lambda>p. sort_key_of p = ?k) (sort_key sort_key_of (rev ps)))"
    by (simp add: s rev_filter)
  also have "\<dots> = rev (filter (\<lambda>p. sort_key_of p = ?k) (rev ps))"
    by (simp only: sort_key_stable)
  also have "\<dots> = filter (\<lambda>p. sort_key_of p = ?k) ps"
    by (simp add: rev_filter)
  finally show ?thesis using k[OF set_sort_reverse] k[OF refl] by simp
qed

lemma search_amazon_products_sorted_without_nan:
  assumes "success (search_amazon_products e n query max_results min_rating)"
    and "\<not> list_ex (\<lambda>p. rating p = NaN) (products (search_amazon_products e n query max_results min_rating))"
  shows "sorted_wrt (\<lambda>a b. float_lt (rating b) (rating a) \<or>
                           (rating a = rating b \<and> reviews b \<le> reviews a))
           (products (search_amazon_products e n query max_results min_rating))"
proof -
  from assms(1) search_amazon_products_cases[of e n query max_results min_rating]
  obtain ps where r: "products (search_amazon_products e n query max_results min_rating) = sort_reverse e ps"
    by auto
  with assms(2) have "\<not> list_ex (\<lambda>p. rating p = NaN) ps"
    using set_sort_reverse[of e ps] by (simp add: list_ex_iff)
  from sort_reverse_sorted[OF this] r show ?thesis by simp
qed

text \<open>
  Claim C2, at an answer of the provider with the ratings 4, "nan", 5 and 4.5 and the
  review counts 10, 20, 30 and 40. The search succeeds and returns the four products in
  the provider's order: the first has the rating 4 and the third the rating 5, so the
  list is not in non-increasing order of the rating. No order of the four would be: the
  NaN rating is neither at least nor at most any other.
\<close>

theorem nan_rating_breaks_order:
  "success (search_amazon_products nan_env 0 ''running shoes'' 15 3.5)
   \<and> map (\<lambda>p. (asin p, rating p, reviews p))
        (products (search_amazon_products nan_env 0 ''running shoes'' 15 3.5))
       = [(''B001'', Fin 4, 10), (''B002'', NaN, 20), (''B003'', Fin 5, 30), (''B004'', Fin 4.5, 40)]
   \<and> float_lt (Fin 4) (Fin 5)
   \<and> \<not> float_ge (Fin 4) NaN \<and> \<not> float_ge NaN (Fin 4)"
proof -
  have c: "collected nan_env 0 ''running shoes'' 15 3.5 = Inr nan_products"
    by code_simp
  have "list_ex (\<lambda>p. rating p = NaN) nan_products"
    by code_simp
  then have "sort_reverse nan_env nan_products = nan_products"
    by (simp add: sort_reverse_def nan_env_def example_env_sorter identity_sorter_rep)
  with c have r: "search_amazon_products nan_env 0 ''running shoes'' 15 3.5 =
      \<lparr>success = True, error = None, products = nan_products, total_results = length nan_products\<rparr>"
    by (simp add: search_amazon_products_def Let_def)
  have m: "map (\<lambda>p. (asin p, rating p, reviews p)) nan_products
       = [(''B001'', Fin 4, 10), (''B002'', NaN, 20), (''B003'', Fin 5, 30), (''B004'', Fin 4.5, 40)]"
    by code_simp
  have o: "float_lt (Fin 4) (Fin 5)" "\<not> float_ge (Fin 4) NaN" "\<not> float_ge NaN (Fin 4)"
    by (simp_all add: float_ge_def)
  have s: "success (search_amazon_products nan_env 0 ''running shoes'' 15 3.5)"
    by (simp only: r search_result.simps)
  have p: "products (search_amazon_products nan_env 0 ''running shoes'' 15 3.5) = nan_products"
    by (simp only: r search_result.simps)
  show ?thesis
    by (rule conjI[OF s conjI[OF m[folded p] conjI[OF o(1) conjI[OF o(2) o(3)]]]])
qed

section \<open>The provider client: failures\<close>

lemma key_failure:
  "get_serpapi_key e n = Inl err \<Longrightarrow> collected e n query max_results min_rating = Inl err"
  by (simp add: collected_def)

lemma provider_failure:
  assumes "get_serpapi_key e n = Inr key" "\<forall>params. google_search e n params = Inl err"
  shows "collected e n query max_results min_rating = Inl err"
proof -
  from extract_price_range_total obtain lo hi where "extract_price_range query = Inr (lo, hi)"
    by (metis surj_pair)
  with assms show ?thesis by (simp add: collected_def Let_def)
qed

text \<open>
  Claim C3. \<open>search_amazon_products\<close> returns a result on every input. When the body of
  its \<open>try\<close> raises an exception, the result has \<open>success\<close> false, no product,
  \<open>total_results\<close> 0 and the exception's text as \<open>error\<close>; the body raises when the
  key cannot be read and when the provider call raises, with that exception. A result
  with \<open>success\<close> true has no error and counts its products; a result with \<open>success\<close>
  false is the failure result of an exception of the body.
\<close>

theorem search_amazon_products_never_raises:
  "(\<forall>err. collected e n query max_results min_rating = Inl err \<longrightarrow>
      search_amazon_products e n query max_results min_rating =
        \<lparr>success = False, error = Some err, products = [], total_results = 0\<rparr>) \<and>
   (\<forall>err. get_serpapi_key e n = Inl err \<longrightarrow>
      collected e n query max_results min_rating = Inl err) \<and>
   (\<forall>key err. get_serpapi_key e n = Inr key \<and> (\<forall>params. google_search e n params = Inl err) \<longrightarrow>
      collected e n query max_results min_rating = Inl err) \<and>
   (success (search_amazon_products e n query max_results min_rating) \<longrightarrow>
      (\<exists>ps. collected e n query max_results min_rating = Inr ps) \<and>
      error (search_amazon_products e n query max_results min_rating) = None \<and>
      total_results (search_amazon_products e n query max_results min_rating) =
        length (products (search_amazon_products e n query max_results min_rating))) \<and>
   (\<not> success (search_amazon_products e n query max_results min_rating) \<longrightarrow>
      (\<exists>err. collected e n query max_results min_rating = Inl err \<and>
         search_amazon_products e n query max_results min_rating =
           \<lparr>success = False, error = Some err, products = [], total_results = 0\<rparr>))"
proof -
  have a: "search_amazon_products e n query max_results min_rating =
        \<lparr>success = False, error = Some err, products = [], total_results = 0\<rparr>"
    if "collected e n query max_results min_rating = Inl err" for err
    using that by (simp add: search_amazon_products_def)
  have b: "collected e n query max_results min_rating = Inl err"
    if "get_serpapi_key e n = Inl err" for err
    using that by (rule key_failure)
  have c: "collected e n query max_results min_rating = Inl err"
    if "get_serpapi_key e n = Inr key \<and> (\<forall>params. google_search e n params = Inl err)" for key err
    using that provider_failure by blast
  note d = search_amazon_products_cases[of e n query max_results min_rating]
  have s: "(\<exists>ps. collected e n query max_results min_rating = Inr ps) \<and>
      error (search_amazon_products e n query max_results min_rating) = None \<and>
      total_results (search_amazon_products e n query max_results min_rating) =
        length (products (search_amazon_products e n query max_results min_rating))"
    if "success (search_amazon_products e n query max_results min_rating)"
    using that d by auto
  have f: "\<exists>err. collected e n query max_results min_rating = Inl err \<and>
         search_amazon_products e n query max_results min_rating =
           \<lparr>success = False, error = Some err, products = [], total_results = 0\<rparr>"
    if "\<not> success (search_amazon_products e n query max_results min_rating)"
    using that d by auto
  from a b c s f show ?thesis by blast
qed

theorem search_amazon_products_never_raises_witness:
  "get_serpapi_key keyless_env 0 = Inl ''SSM parameter not found: /concierge-agent/shopping/serp-api-key''
   \<and> search_amazon_products keyless_env 0 ''running shoes'' 15 3.5 =
       \<lparr>success = False,
        error = Some ''SSM parameter not found: /concierge-agent/shopping/serp-api-key'',
        products = [], total_results = 0\<rparr>
   \<and> get_serpapi_key down_env 0 = Inr ''key''
   \<and> search_amazon_products down_env 0 ''running shoes'' 15 3.5 =
       \<lparr>success = False, error = Some ''Connection timed out'', products = [], total_results = 0\<rparr>
   \<and> collected comma_env 0 ''running shoes'' 15 3.5 = Inl (''could not convert string to float: '' @ quote @ quote)
   \<and> search_amazon_products comma_env 0 ''running shoes'' 15 3.5 =
       \<lparr>success = False, error = Some (''could not convert string to float: '' @ quote @ quote),
        products = [], total_results = 0\<rparr>"
proof -
  note t1 = search_amazon_products_never_raises[of keyless_env 0 "''running shoes''" 15 "3.5"]
  note t2 = search_amazon_products_never_raises[of down_env 0 "''running shoes''" 15 "3.5"]
  note t3 = search_amazon_products_never_raises[of comma_env 0 "''running shoes''" 15 "3.5"]
  have k: "get_serpapi_key keyless_env 0 = Inl ''SSM parameter not found: /concierge-agent/shopping/serp-api-key''"
    by (simp add: keyless_env_def example_env_def)
  have d: "get_serpapi_key down_env 0 = Inr ''key''"
    and dp: "\<forall>params. google_search down_env 0 params = Inl ''Connection timed out''"
    by (simp_all add: down_env_def example_env_def)
  have c: "collected comma_env 0 ''running shoes'' 15 3.5 = Inl (''could not convert string to float: '' @ quote @ quote)"
    by code_simp
  from t1 k have r1: "search_amazon_products keyless_env 0 ''running shoes'' 15 3.5 =
       \<lparr>success = False,
        error = Some ''SSM parameter not found: /concierge-agent/shopping/serp-api-key'',
        products = [], total_results = 0\<rparr>" by blast
  from t2 d dp have r2: "search_amazon_products down_env 0 ''running shoes'' 15 3.5 =
       \<lparr>success = False, error = Some ''Connection timed out'', products = [], total_results = 0\<rparr>"
    by blast
  from t3 c have r3: "search_amazon_products comma_env 0 ''running shoes'' 15 3.5 =
       \<lparr>success = False, error = Some (''could not convert string to float: '' @ quote @ quote),
        products = [], total_results = 0\<rparr>" by blast
  from k d c r1 r2 r3 show ?thesis by blast
qed


section \<open>The search orchestrator\<close>

lemma try_attempts_all_fail:
  "\<forall>i<length qs. \<not> found_products (search_amazon_products e (n + i) (qs ! i) 12 3.5) \<Longrightarrow>
   try_attempts e n qs last_error =
     ([], if qs = [] then last_error
          else Some (recorded_error
                 (search_amazon_products e (n + (length qs - 1)) (qs ! (length qs - 1)) 12 3.5)),
      n + length qs)"
proof (induction qs arbitrary: n last_error)
  case Nil
  then show ?case by simp
next
  case (Cons q qs)
  from Cons.prems have h: "\<not> found_products (search_amazon_products e n q 12 3.5)"
    by (metis add_0_right length_greater_0_conv list.distinct(1) nth_Cons_0)
  have t: "\<forall>i<length qs. \<not> found_products (search_amazon_products e (Suc n + i) (qs ! i) 12 3.5)"
  proof (intro allI impI)
    fix i assume "i < length qs"
    then have "Suc i < length (q # qs)" by simp
    from Cons.prems[rule_format, OF this]
    show "\<not> found_products (search_amazon_products e (Suc n + i) (qs ! i) 12 3.5)" by simp
  qed
  have step: "try_attempts e n (q # qs) last_error =
            try_attempts e (Suc n) qs (Some (recorded_error (search_amazon_products e n q 12 3.5)))"
    using h by (simp add: Let_def)
  show ?case
  proof (cases qs)
    case Nil
    with step show ?thesis by simp
  next
    case (Cons q' qs')
    then have ne: "qs \<noteq> []" by simp
    then have ix: "(q # qs) ! (length (q # qs) - 1) = qs ! (length qs - 1)"
      "n + (length (q # qs) - 1) = Suc n + (length qs - 1)"
      "n + length (q # qs) = Suc n + length qs" by (simp_all add: nth_Cons')
    note step
    also note Cons.IH[OF t]
    finally show ?thesis using ne unfolding ix by simp
  qed
qed

lemma try_attempts_first_success:
  "i < length qs \<Longrightarrow> found_products (search_amazon_products e (n + i) (qs ! i) 12 3.5) \<Longrightarrow>
   \<forall>j<i. \<not> found_products (search_amazon_products e (n + j) (qs ! j) 12 3.5) \<Longrightarrow>
   \<exists>recorded. try_attempts e n qs last_error =
     (products (search_amazon_products e (n + i) (qs ! i) 12 3.5), recorded, n + Suc i)"
proof (induction qs arbitrary: n i last_error)
  case Nil
  then show ?case by simp
next
  case (Cons q qs)
  show ?case
  proof (cases i)
    case 0
    with Cons.prems show ?thesis by (simp add: Let_def)
  next
    case (Suc k)
    with Cons.prems have h: "\<not> found_products (search_amazon_products e n q 12 3.5)"
      by (metis add_0_right nth_Cons_0 zero_less_Suc)
    have k: "k < length qs" using Cons.prems Suc by simp
    have f: "found_products (search_amazon_products e (Suc n + k) (qs ! k) 12 3.5)"
      using Cons.prems(2) Suc by simp
    have t: "\<forall>j<k. \<not> found_products (search_amazon_products e (Suc n + j) (qs ! j) 12 3.5)"
    proof (intro allI impI)
      fix j assume "j < k"
      then have "Suc j < i" using Suc by simp
      from Cons.prems(3)[rule_format, OF this]
      show "\<not> found_products (search_amazon_products e (Suc n + j) (qs ! j) 12 3.5)" by simp
    qed
    from Cons.IH[OF k f t, of "Some (recorded_error (search_amazon_products e n q 12 3.5))"]
    obtain recorded where
      "try_attempts e (Suc n) qs (Some (recorded_error (search_amazon_products e n q 12 3.5))) =
         (products (search_amazon_products e (Suc n + k) (qs ! k) 12 3.5), recorded, Suc n + Suc k)"
      by blast
    with h Suc show ?thesis by (simp add: Let_def)
  qed
qed

lemma try_attempts_found:
  "fst (try_attempts e n qs last_error) = [] \<or>
   (\<exists>m q. fst (try_attempts e n qs last_error) = products (search_amazon_products e m q 12 3.5))"
  by (induction qs arbitrary: n last_error) (auto simp: Let_def)

lemma search_attempts_shape:
  "search_attempts question =
     [question, optimize_search_query question]
     @ (if any_in [''best'', ''top'', ''good'', ''recommend''] (str_lower question)
        then [''best rated '' @ optimize_search_query question] else [])
     @ (if str_in ''cheap'' (str_lower question) \<or> str_in ''budget'' (str_lower question)
        then [''budget '' @ optimize_search_query question] else [])"
  by (simp add: search_attempts_def Let_def)

lemma search_attempts_nonempty: "search_attempts question \<noteq> []"
  by (simp add: search_attempts_shape)

lemma str_in_suffix: "str_in err (pre @ err)"
  by (simp add: str_in_sublist)

text \<open>What \<open>search_products\<close> returns once the loop has found products.\<close>

lemma search_products_found:
  assumes "try_attempts e n (search_attempts question) None = (found, recorded, searches)"
    and "found \<noteq> []"
  shows "(\<forall>entries. concat_raise (product_entry e) (List.enumerate 1 (take 8 found)) = Inr entries \<longrightarrow>
            sp_products (search_products e n user_id question) = found \<and>
            sp_asins (search_products e n user_id question) = map asin (filter (\<lambda>p. asin p \<noteq> []) found)) \<and>
         (\<forall>err. concat_raise (product_entry e) (List.enumerate 1 (take 8 found)) = Inl err \<longrightarrow>
            search_products e n user_id question =
              \<lparr>sp_answer = ''An error occurred while searching for products: '' @ err
                  @ ''. Please try rephrasing your search or try again later.'',
               sp_asins = [], sp_products = []\<rparr>)"
  using assms by (simp add: search_products_def search_products_body_def Let_def)

text \<open>
  Claim C4. \<open>search_products\<close> tries the original question, the normalised question,
  then the quality variant and the budget variant when their keywords occur, in this
  order, the \<open>i\<close>-th attempt being the search number \<open>n + i\<close>. When no attempt finds a
  product (each fails or yields no product), it returns no identifier, no product, and
  an answer that contains the error recorded for the last attempt. Otherwise the loop
  stops at the first attempt that finds a product: it has made the searches up to that
  one and no other, and it holds the products of that attempt. These products are
  returned when the answer text can be built; when the formatting of a product raises,
  the \<open>except\<close> clause returns its error answer with no product.
\<close>

theorem search_products_attempts:
  "search_attempts question =
     [question, optimize_search_query question]
     @ (if any_in [''best'', ''top'', ''good'', ''recommend''] (str_lower question)
        then [''best rated '' @ optimize_search_query question] else [])
     @ (if str_in ''cheap'' (str_lower question) \<or> str_in ''budget'' (str_lower question)
        then [''budget '' @ optimize_search_query question] else []) \<and>
   ((\<forall>i<length (search_attempts question).
        \<not> found_products (search_amazon_products e (n + i) (search_attempts question ! i) 12 3.5)) \<longrightarrow>
      sp_asins (search_products e n user_id question) = [] \<and>
      sp_products (search_products e n user_id question) = [] \<and>
      str_in (recorded_error (search_amazon_products e (n + (length (search_attempts question) - 1))
                 (search_attempts question ! (length (search_attempts question) - 1)) 12 3.5))
        (sp_answer (search_products e n user_id question))) \<and>
   (\<forall>i. i < length (search_attempts question) \<and>
        found_products (search_amazon_products e (n + i) (search_attempts question ! i) 12 3.5) \<and>
        (\<forall>j<i. \<not> found_products (search_amazon_products e (n + j) (search_attempts question ! j) 12 3.5)) \<longrightarrow>
      (\<exists>recorded. try_attempts e n (search_attempts question) None =
         (products (search_amazon_products e (n + i) (search_attempts question ! i) 12 3.5),
          recorded, n + Suc i)) \<and>
      (\<forall>entries.
         concat_raise (product_entry e) (List.enumerate 1 (take 8
           (products (search_amazon_products e (n + i) (search_attempts question ! i) 12 3.5))))
           = Inr entries \<longrightarrow>
         sp_products (search_products e n user_id question) =
           products (search_amazon_products e (n + i) (search_attempts question ! i) 12 3.5) \<and>
         sp_products (search_products e n user_id question) \<noteq> []) \<and>
      (\<forall>err.
         concat_raise (product_entry e) (List.enumerate 1 (take 8
           (products (search_amazon_products e (n + i) (search_attempts question ! i) 12 3.5))))
           = Inl err \<longrightarrow>
         search_products e n user_id question =
           \<lparr>sp_answer = ''An error occurred while searching for products: '' @ err
               @ ''. Please try rephrasing your search or try again later.'',
            sp_asins = [], sp_products = []\<rparr>))"
proof -
  let ?qs = "search_attempts question"
  let ?r = "\<lambda>i. search_amazon_products e (n + i) (?qs ! i) 12 3.5"
  let ?last = "?r (length ?qs - 1)"
  have none: "sp_asins (search_products e n user_id question) = [] \<and>
      sp_products (search_products e n user_id question) = [] \<and>
      str_in (recorded_error ?last) (sp_answer (search_products e n user_id question))"
    if a: "\<forall>i<length ?qs. \<not> found_products (?r i)"
  proof -
    from try_attempts_all_fail[OF a, of None] search_attempts_nonempty[of question]
    have t: "try_attempts e n ?qs None = ([], Some (recorded_error ?last), n + length ?qs)"
      by simp
    then have r: "search_products e n user_id question =
        \<lparr>sp_answer = (''No products found matching '' @ quote @ question @ quote
             @ ''. Try being more specific or using different keywords. Error: '')
             @ recorded_error ?last,
         sp_asins = [], sp_products = []\<rparr>"
      by (simp add: search_products_def search_products_body_def str_opt_def)
    have "str_in (recorded_error ?last) (sp_answer (search_products e n user_id question))"
      unfolding r by (simp only: product_list.simps str_in_suffix)
    with r show ?thesis by simp
  qed
  have first: "(\<exists>recorded. try_attempts e n ?qs None = (products (?r i), recorded, n + Suc i)) \<and>
      (\<forall>entries. concat_raise (product_entry e) (List.enumerate 1 (take 8 (products (?r i))))
           = Inr entries \<longrightarrow>
         sp_products (search_products e n user_id question) = products (?r i) \<and>
         sp_products (search_products e n user_id question) \<noteq> []) \<and>
      (\<forall>err. concat_raise (product_entry e) (List.enumerate 1 (take 8 (products (?r i))))
           = Inl err \<longrightarrow>
         search_products e n user_id question =
           \<lparr>sp_answer = ''An error occurred while searching for products: '' @ err
               @ ''. Please try rephrasing your search or try again later.'',
            sp_asins = [], sp_products = []\<rparr>)"
    if a: "i < length ?qs \<and> found_products (?r i) \<and> (\<forall>j<i. \<not> found_products (?r j))" for i
  proof -
    from a have "\<exists>recorded. try_attempts e n ?qs None = (products (?r i), recorded, n + Suc i)"
      by (intro try_attempts_first_success) auto
    then obtain recorded where
      t: "try_attempts e n ?qs None = (products (?r i), recorded, n + Suc i)" by blast
    from a have ne: "products (?r i) \<noteq> []" by (simp add: found_products_def)
    note f = search_products_found[OF t ne, of user_id]
    have p1: "\<exists>recorded. try_attempts e n ?qs None = (products (?r i), recorded, n + Suc i)"
      using t by blast
    have p2: "\<forall>entries. concat_raise (product_entry e) (List.enumerate 1 (take 8 (products (?r i))))
           = Inr entries \<longrightarrow>
         sp_products (search_products e n user_id question) = products (?r i) \<and>
         sp_products (search_products e n user_id question) \<noteq> []"
      using conjunct1[OF f] ne by simp
    show ?thesis by (rule conjI[OF p1 conjI[OF p2 conjunct2[OF f]]])
  qed
  from search_attempts_shape[of question] none first show ?thesis by blast
qed

lemma down_env_fails:
  "search_amazon_products down_env m q max_results min_rating =
     \<lparr>success = False, error = Some ''Connection timed out'', products = [], total_results = 0\<rparr>"
proof -
  have "collected down_env m q max_results min_rating = Inl ''Connection timed out''"
    by (rule provider_failure[where key = "''key''"]) (simp_all add: down_env_def example_env_def)
  then show ?thesis by (simp add: search_amazon_products_def)
qed

lemma down_env_not_found: "\<not> found_products (search_amazon_products down_env m q max_results min_rating)"
  by (simp add: down_env_fails found_products_def)

theorem search_products_attempts_witness:
  "sp_asins (search_products down_env 0 ''user-1'' ''Running Shoes'') = []
   \<and> sp_products (search_products down_env 0 ''user-1'' ''Running Shoes'') = []
   \<and> str_in ''Connection timed out'' (sp_answer (search_products down_env 0 ''user-1'' ''Running Shoes''))
   \<and> search_attempts ''Running Shoes'' = [''Running Shoes'', ''running shoes'']
   \<and> \<not> found_products (search_amazon_products flaky_env 0 ''Running Shoes'' 12 3.5)
   \<and> found_products (search_amazon_products flaky_env 1 ''running shoes'' 12 3.5)
   \<and> (\<exists>recorded. try_attempts flaky_env 0 (search_attempts ''Running Shoes'') None =
         (products (search_amazon_products flaky_env 1 ''running shoes'' 12 3.5), recorded, 2))
   \<and> sp_products (search_products flaky_env 0 ''user-1'' ''Running Shoes'') =
       products (search_amazon_products flaky_env 1 ''running shoes'' 12 3.5)
   \<and> found_products (search_amazon_products inf_env 0 ''Running Shoes'' 12 3.5)
   \<and> search_products inf_env 0 ''user-1'' ''Running Shoes'' =
       \<lparr>sp_answer = ''An error occurred while searching for products: cannot convert float infinity to integer. Please try rephrasing your search or try again later.'',
        sp_asins = [], sp_products = []\<rparr>"
proof -
  have qs: "search_attempts ''Running Shoes'' = [''Running Shoes'', ''running shoes'']"
    by code_simp
  note t1 = search_products_attempts[of "''Running Shoes''" down_env 0 "''user-1''"]
  note t2 = search_products_attempts[of "''Running Shoes''" flaky_env 0 "''user-1''"]
  note t3 = search_products_attempts[of "''Running Shoes''" inf_env 0 "''user-1''"]
  have "sp_asins (search_products down_env 0 ''user-1'' ''Running Shoes'') = [] \<and>
      sp_products (search_products down_env 0 ''user-1'' ''Running Shoes'') = [] \<and>
      str_in (recorded_error (search_amazon_products down_env (0 + (length (search_attempts ''Running Shoes'') - 1))
                 (search_attempts ''Running Shoes'' ! (length (search_attempts ''Running Shoes'') - 1)) 12 3.5))
        (sp_answer (search_products down_env 0 ''user-1'' ''Running Shoes''))"
    using conjunct1[OF conjunct2[OF t1]] down_env_not_found by blast
  then have d: "sp_asins (search_products down_env 0 ''user-1'' ''Running Shoes'') = []"
    "sp_products (search_products down_env 0 ''user-1'' ''Running Shoes'') = []"
    "str_in ''Connection timed out'' (sp_answer (search_products down_env 0 ''user-1'' ''Running Shoes''))"
    by (simp_all add: down_env_fails recorded_error_def get_or_def)
  have f0: "\<not> found_products (search_amazon_products flaky_env 0 ''Running Shoes'' 12 3.5)"
    by code_simp
  have f1: "found_products (search_amazon_products flaky_env 1 ''running shoes'' 12 3.5)"
    by code_simp
  have h: "1 < length (search_attempts ''Running Shoes'') \<and>
        found_products (search_amazon_products flaky_env (0 + 1) (search_attempts ''Running Shoes'' ! 1) 12 3.5) \<and>
        (\<forall>j<1. \<not> found_products (search_amazon_products flaky_env (0 + j) (search_attempts ''Running Shoes'' ! j) 12 3.5))"
    using f0 f1 by (simp add: qs)
  note u = conjunct2[OF conjunct2[OF t2], rule_format, OF h]
  have s: "\<exists>recorded. try_attempts flaky_env 0 (search_attempts ''Running Shoes'') None =
         (products (search_amazon_products flaky_env 1 ''running shoes'' 12 3.5), recorded, 2)"
    using conjunct1[OF u] by (simp add: qs numeral_2_eq_2)
  have len: "length (sp_products (search_products flaky_env 0 ''user-1'' ''Running Shoes'')) = 5"
    by code_simp
  have p: "sp_products (search_products flaky_env 0 ''user-1'' ''Running Shoes'') =
       products (search_amazon_products flaky_env 1 ''running shoes'' 12 3.5)"
  proof (cases "concat_raise (product_entry flaky_env) (List.enumerate 1 (take 8
           (products (search_amazon_products flaky_env (0 + 1) (search_attempts ''Running Shoes'' ! 1) 12 3.5))))")
    case (Inl err)
    from conjunct2[OF conjunct2[OF u], rule_format, OF Inl] len show ?thesis by simp
  next
    case (Inr entries)
    from conjunct1[OF conjunct2[OF u], rule_format, OF Inr] show ?thesis by (simp add: qs)
  qed
  have i0: "found_products (search_amazon_products inf_env 0 ''Running Shoes'' 12 3.5)"
    by code_simp
  have ir: "concat_raise (product_entry inf_env) (List.enumerate 1 (take 8
           (products (search_amazon_products inf_env 0 ''Running Shoes'' 12 3.5))))
           = Inl ''cannot convert float infinity to integer''"
    by code_simp
  have hi: "0 < length (search_attempts ''Running Shoes'') \<and>
        found_products (search_amazon_products inf_env (0 + 0) (search_attempts ''Running Shoes'' ! 0) 12 3.5) \<and>
        (\<forall>j<0. \<not> found_products (search_amazon_products inf_env (0 + j) (search_attempts ''Running Shoes'' ! j) 12 3.5))"
    using i0 by (simp add: qs)
  note v = conjunct2[OF conjunct2[OF t3], rule_format, OF hi]
  have ir': "concat_raise (product_entry inf_env) (List.enumerate 1 (take 8
           (products (search_amazon_products inf_env (0 + 0) (search_attempts ''Running Shoes'' ! 0) 12 3.5))))
           = Inl ''cannot convert float infinity to integer''"
    using ir by (simp add: qs)
  have e: "search_products inf_env 0 ''user-1'' ''Running Shoes'' =
       \<lparr>sp_answer = ''An error occurred while searching for products: cannot convert float infinity to integer. Please try rephrasing your search or try again later.'',
        sp_asins = [], sp_products = []\<rparr>"
    using conjunct2[OF conjunct2[OF v], rule_format, OF ir'] by simp
  show ?thesis
    by (rule conjI[OF d(1) conjI[OF d(2) conjI[OF d(3) conjI[OF qs conjI[OF f0 conjI[OF f1
          conjI[OF s conjI[OF p conjI[OF i0 e]]]]]]]]])
qed

text \<open>The identifier filter of \<open>search_products\<close> drops nothing from a result of the provider client.\<close>

lemma found_asins: "map asin (filter (\<lambda>p. asin p \<noteq> []) (products (search_amazon_products e m q max_results min_rating)))
  = map asin (products (search_amazon_products e m q max_results min_rating))"
proof -
  have "filter (\<lambda>p. asin p \<noteq> []) (products (search_amazon_products e m q max_results min_rating))
          = products (search_amazon_products e m q max_results min_rating)"
    using products_qualifying[of _ e m q max_results min_rating] by (simp add: filter_id_conv)
  then show ?thesis by simp
qed

text \<open>
  Claim C10. When \<open>search_products\<close> returns a product list that is not empty, its
  \<open>asins\<close> list is parallel to it: it has the same length and its \<open>i\<close>-th element is the
  identifier of the \<open>i\<close>-th product, which is not empty.
\<close>

theorem search_products_asins_parallel:
  "sp_products (search_products e n user_id question) \<noteq> [] \<longrightarrow>
     sp_asins (search_products e n user_id question) =
       map asin (sp_products (search_products e n user_id question)) \<and>
     length (sp_asins (search_products e n user_id question)) =
       length (sp_products (search_products e n user_id question)) \<and>
     (\<forall>i<length (sp_products (search_products e n user_id question)).
        sp_asins (search_products e n user_id question) ! i =
          asin (sp_products (search_products e n user_id question) ! i) \<and>
        asin (sp_products (search_products e n user_id question) ! i) \<noteq> [])"
proof
  assume ne: "sp_products (search_products e n user_id question) \<noteq> []"
  obtain found recorded searches where
    t: "try_attempts e n (search_attempts question) None = (found, recorded, searches)"
    by (cases "try_attempts e n (search_attempts question) None")
  have fne: "found \<noteq> []"
  proof
    assume "found = []"
    with t have "sp_products (search_products e n user_id question) = []"
      by (simp add: search_products_def search_products_body_def)
    with ne show False by simp
  qed
  with t try_attempts_found[of e n "search_attempts question" None]
  obtain m q where f: "found = products (search_amazon_products e m q 12 3.5)" by auto
  note sf = search_products_found[OF t fne, of user_id]
  have "sp_products (search_products e n user_id question) = found \<and>
        sp_asins (search_products e n user_id question) = map asin (filter (\<lambda>p. asin p \<noteq> []) found)"
  proof (cases "concat_raise (product_entry e) (List.enumerate 1 (take 8 found))")
    case (Inl err)
    from conjunct2[OF sf, rule_format, OF Inl] ne show ?thesis by simp
  next
    case (Inr entries)
    from conjunct1[OF sf, rule_format, OF Inr] show ?thesis .
  qed
  then have p: "sp_products (search_products e n user_id question) = found"
    and a: "sp_asins (search_products e n user_id question) = map asin (filter (\<lambda>p. asin p \<noteq> []) found)"
    by simp_all
  from a f found_asins have eq: "sp_asins (search_products e n user_id question) = map asin found"
    by simp
  have "asin (found ! i) \<noteq> []" if "i < length found" for i
    using products_qualifying[of "found ! i" e m q 12 "3.5"] that f nth_mem by metis
  with eq p show "sp_asins (search_products e n user_id question) =
       map asin (sp_products (search_products e n user_id question)) \<and>
     length (sp_asins (search_products e n user_id question)) =
       length (sp_products (search_products e n user_id question)) \<and>
     (\<forall>i<length (sp_products (search_products e n user_id question)).
        sp_asins (search_products e n user_id question) ! i =
          asin (sp_products (search_products e n user_id question) ! i) \<and>
        asin (sp_products (search_products e n user_id question) ! i) \<noteq> [])"
    by simp
qed

theorem search_products_asins_parallel_witness:
  "sp_products (search_products shop_env 0 ''user-1'' ''Running Shoes'') \<noteq> []
   \<and> sp_asins (search_products shop_env 0 ''user-1'' ''Running Shoes'') =
       [''B003'', ''B006'', ''B001'', ''B004'', ''B005'']
   \<and> sp_asins (search_products shop_env 0 ''user-1'' ''Running Shoes'') =
       map asin (sp_products (search_products shop_env 0 ''user-1'' ''Running Shoes''))"
proof -
  have a: "sp_asins (search_products shop_env 0 ''user-1'' ''Running Shoes'') =
       [''B003'', ''B006'', ''B001'', ''B004'', ''B005'']" by code_simp
  have b: "length (sp_products (search_products shop_env 0 ''user-1'' ''Running Shoes'')) = 5"
    by code_simp
  then have ne: "sp_products (search_products shop_env 0 ''user-1'' ''Running Shoes'') \<noteq> []"
    by auto
  from search_products_asins_parallel[of shop_env 0 "''user-1''" "''Running Shoes''"] ne
  have c: "sp_asins (search_products shop_env 0 ''user-1'' ''Running Shoes'') =
       map asin (sp_products (search_products shop_env 0 ''user-1'' ''Running Shoes''))"
    by blast
  show ?thesis by (rule conjI[OF ne conjI[OF a c]])
qed

section \<open>The packing list generator\<close>

lemma try_queries_all_fail:
  "\<forall>k<length qs. \<not> found_products (search_amazon_products e (n + k) (qs ! k) 4 3.5) \<Longrightarrow>
   try_queries e n qs = ([], n + length qs)"
proof (induction qs arbitrary: n)
  case Nil
  then show ?case by simp
next
  case (Cons q qs)
  from Cons.prems[rule_format, of 0] have h: "\<not> found_products (search_amazon_products e n q 4 3.5)"
    by simp
  have t: "\<forall>k<length qs. \<not> found_products (search_amazon_products e (Suc n + k) (qs ! k) 4 3.5)"
  proof (intro allI impI)
    fix k assume "k < length qs"
    then have "Suc k < length (q # qs)" by simp
    from Cons.prems[rule_format, OF this]
    show "\<not> found_products (search_amazon_products e (Suc n + k) (qs ! k) 4 3.5)" by simp
  qed
  from Cons.IH[OF t] h show ?case by (simp add: Let_def)
qed

lemma packing_step_all_fail:
  assumes "\<forall>k<3. \<not> found_products
             (search_amazon_products e (ps_next st + k) (item_queries it ! k) 4 3.5)"
  shows "\<exists>st'. packing_step e it st = Inr st' \<and> ps_results st' = ps_results st \<and>
               ps_next st' = ps_next st + 3"
proof -
  have "length (item_queries it) = 3" by (simp add: item_queries_def)
  with assms try_queries_all_fail[of "item_queries it" e "ps_next st"]
  have "try_queries e (ps_next st) (item_queries it) = ([], ps_next st + 3)" by simp
  then show ?thesis by (simp add: packing_step_def)
qed

lemma packing_loop_all_fail:
  "\<forall>j<length its. \<forall>k<3. \<not> found_products
      (search_amazon_products e (ps_next st + 3 * j + k) (item_queries (its ! j) ! k) 4 3.5) \<Longrightarrow>
   \<exists>st'. packing_loop e its st = Inr st' \<and> ps_results st' = ps_results st"
proof (induction its arbitrary: st)
  case Nil
  then show ?case by simp
next
  case (Cons it its)
  have "\<forall>k<3. \<not> found_products (search_amazon_products e (ps_next st + k) (item_queries it ! k) 4 3.5)"
    using Cons.prems[rule_format, of 0] by simp
  from packing_step_all_fail[OF this] obtain st1 where
    s: "packing_step e it st = Inr st1" and r: "ps_results st1 = ps_results st"
    and n: "ps_next st1 = ps_next st + 3" by blast
  have "\<forall>j<length its. \<forall>k<3. \<not> found_products
      (search_amazon_products e (ps_next st1 + 3 * j + k) (item_queries (its ! j) ! k) 4 3.5)"
  proof (intro allI impI)
    fix j k assume j: "j < length its" and k: "k < (3::nat)"
    then have "Suc j < length (it # its)" by simp
    from Cons.prems[rule_format, OF this k]
    have f: "\<not> found_products (search_amazon_products e (ps_next st + 3 * Suc j + k)
             (item_queries (its ! j) ! k) 4 3.5)" by simp
    have eq: "ps_next st + 3 * Suc j + k = ps_next st1 + 3 * j + k" using n by simp
    show "\<not> found_products (search_amazon_products e (ps_next st1 + 3 * j + k)
             (item_queries (its ! j) ! k) 4 3.5)" using f unfolding eq .
  qed
  from Cons.IH[OF this] obtain st' where
    "packing_loop e its st1 = Inr st'" "ps_results st' = ps_results st1" by blast
  with s r show ?case by simp
qed

lemma strip_failure_message:
  "strip (''Unable to find specific product recommendations for your packing list: ''
           @ question @ ''. Try searching for individual items.'')
   = ''Unable to find specific product recommendations for your packing list: ''
           @ question @ ''. Try searching for individual items.''"
  by (rule strip_id) (simp_all add: isspace_def)

text \<open>
  Claim C9. \<open>generate_packing_list\<close> searches the first ten items of the smart
  packing list, each with the three queries "travel item", "best item" and "item", the
  searches being numbered from \<open>n\<close>. When it finds products for none of these items,
  that is when for every item all three queries fail or return no product, the answer
  is exactly the aggregate failure message, with the description in it and nothing of
  the text built item by item, and the list of items is empty.
\<close>

theorem generate_packing_list_aggregate_failure:
  "priority_items question = take 10 (generate_smart_packing_list question) \<and>
   (\<forall>it. item_queries it = [''travel '' @ it, ''best '' @ it, it]) \<and>
   ((\<forall>j<length (priority_items question). \<forall>k<3.
        \<not> found_products (search_amazon_products e (n + 3 * j + k)
                              (item_queries (priority_items question ! j) ! k) 4 3.5)) \<longrightarrow>
      pl_items (generate_packing_list e n user_id question) = [] \<and>
      pl_answer (generate_packing_list e n user_id question) =
        ''Unable to find specific product recommendations for your packing list: ''
        @ question @ ''. Try searching for individual items.'')"
proof -
  let ?st = "\<lparr>ps_answer = glyph_backpack @ '' **Smart Packing List for: '' @ question
                 @ ''**'' @ nl @ nl,
              ps_results = [], ps_asins_dict = Map.empty, ps_failed_searches = [],
              ps_next = n\<rparr>"
  have a: "pl_items (generate_packing_list e n user_id question) = [] \<and>
      pl_answer (generate_packing_list e n user_id question) =
        ''Unable to find specific product recommendations for your packing list: ''
        @ question @ ''. Try searching for individual items.''"
    if h: "\<forall>j<length (priority_items question). \<forall>k<3.
        \<not> found_products (search_amazon_products e (n + 3 * j + k)
                              (item_queries (priority_items question ! j) ! k) 4 3.5)"
  proof -
    from h have "\<forall>j<length (priority_items question). \<forall>k<3.
        \<not> found_products (search_amazon_products e (ps_next ?st + 3 * j + k)
                              (item_queries (priority_items question ! j) ! k) 4 3.5)"
      by simp
    from packing_loop_all_fail[OF this] obtain st' where
      l: "packing_loop e (priority_items question) ?st = Inr st'" and r: "ps_results st' = []"
      by auto
    from l r strip_failure_message[of question] show ?thesis
      by (simp add: generate_packing_list_def generate_packing_list_body_def packing_summary_def)
  qed
  have b: "priority_items question = take 10 (generate_smart_packing_list question)"
    by (simp add: priority_items_def)
  have c: "\<forall>it. item_queries it = [''travel '' @ it, ''best '' @ it, it]"
    by (simp add: item_queries_def)
  from a b c show ?thesis by blast
qed

theorem generate_packing_list_aggregate_failure_witness:
  "pl_items (generate_packing_list down_env 0 ''user-1'' ''Beach weekend'') = []
   \<and> pl_answer (generate_packing_list down_env 0 ''user-1'' ''Beach weekend'') =
       ''Unable to find specific product recommendations for your packing list: Beach weekend. Try searching for individual items.''"
proof -
  note t = generate_packing_list_aggregate_failure[of "''Beach weekend''" down_env 0 "''user-1''"]
  from conjunct2[OF conjunct2[OF t]] down_env_not_found
  have "pl_items (generate_packing_list down_env 0 ''user-1'' ''Beach weekend'') = [] \<and>
      pl_answer (generate_packing_list down_env 0 ''user-1'' ''Beach weekend'') =
        ''Unable to find specific product recommendations for your packing list: ''
        @ ''Beach weekend'' @ ''. Try searching for individual items.''"
    by blast
  then show ?thesis by simp
qed

text \<open>
  An empty list of items does not by itself mean that no product was found: when a
  found product cannot be formatted, here for its infinite rating, the \<open>except\<close> clause
  returns an empty list of items with its own answer.
\<close>

lemma generate_packing_list_error_answer:
  "found_products (search_amazon_products inf_env 0 ''travel travel backpack'' 4 3.5)
   \<and> pl_items (generate_packing_list inf_env 0 ''user-1'' ''Beach weekend'') = []
   \<and> pl_answer (generate_packing_list inf_env 0 ''user-1'' ''Beach weekend'') =
       ''An error occurred while generating your packing list: cannot convert float infinity to integer. Please try again with more specific trip details.''"
proof -
  have a: "found_products (search_amazon_products inf_env 0 ''travel travel backpack'' 4 3.5)"
    by code_simp
  have b: "pl_items (generate_packing_list inf_env 0 ''user-1'' ''Beach weekend'') = []"
    by code_simp
  have c: "pl_answer (generate_packing_list inf_env 0 ''user-1'' ''Beach weekend'') =
       ''An error occurred while generating your packing list: cannot convert float infinity to integer. Please try again with more specific trip details.''"
    by code_simp
  show ?thesis by (rule conjI[OF a conjI[OF b c]])
qed

end
